theory Spec2Isabelle
  imports Main "HOL-Library.Sublist" "HOL-Library.AList" "HOL-Library.Word"
begin

section \<open>Strings\<close>

text \<open>
  A string is a list of characters; a character is a code unit below 256 (the Latin-1
  range), on which \<open>String.prototype.toLowerCase\<close> maps \<open>A\<close>..\<open>Z\<close> and the accented
  capitals \<open>0xC0\<close>..\<open>0xDE\<close> (without the multiplication sign \<open>0xD7\<close>) to the code unit
  32 above and leaves everything else alone.
\<close>


definition lower_char :: "char \<Rightarrow> char" where
  "lower_char c =
     (let n = (of_char c :: nat)
      in if (65 \<le> n \<and> n \<le> 90) \<or> (192 \<le> n \<and> n \<le> 222 \<and> n \<noteq> 215)
         then char_of (n + 32) else c)"

definition toLowerCase :: "string \<Rightarrow> string" where
  "toLowerCase s = map lower_char s"

definition is_az09 :: "char \<Rightarrow> bool" where
  "is_az09 c =
     (let n = (of_char c :: nat)
      in (97 \<le> n \<and> n \<le> 122) \<or> (48 \<le> n \<and> n \<le> 57))"

definition is_filename_char :: "char \<Rightarrow> bool" where
  "is_filename_char c = (is_az09 c \<or> c = CHR ''.'' \<or> c = CHR ''-'')"

section \<open>Sanitizers of \<open>dev-editor.ts\<close>\<close>

text \<open>\<open>.replace(/-+/g, '-')\<close>: every maximal run of hyphens becomes one hyphen.\<close>

fun collapse_hyphens :: "string \<Rightarrow> string" where
  "collapse_hyphens [] = []"
| "collapse_hyphens [c] = [c]"
| "collapse_hyphens (c # d # s) =
     (if c = CHR ''-'' \<and> d = CHR ''-'' then collapse_hyphens (d # s)
      else c # collapse_hyphens (d # s))"

text \<open>
  \<open>.replace(/^-|-$/g, '')\<close>: the scan removes a hyphen at index 0, then a hyphen that is
  the last character of what is left to scan.
\<close>

definition trim_hyphens :: "string \<Rightarrow> string" where
  "trim_hyphens s =
     (let t = (case s of [] \<Rightarrow> [] | c # r \<Rightarrow> if c = CHR ''-'' then r else s)
      in if t \<noteq> [] \<and> last t = CHR ''-'' then butlast t else t)"

text \<open>\<open>.replace(/[^a-z0-9]+/g, '-')\<close>: every maximal run of other characters becomes one hyphen.\<close>

function replace_runs :: "string \<Rightarrow> string" where
  "replace_runs [] = []"
| "replace_runs (c # s) =
     (if is_az09 c then c # replace_runs s
      else CHR ''-'' # replace_runs (dropWhile (\<lambda>d. \<not> is_az09 d) s))"
  by pat_completeness auto
termination
  by (relation "measure length") (auto simp: less_Suc_eq_le length_dropWhile_le)

definition sanitizeFilename :: "string \<Rightarrow> string" where
  "sanitizeFilename name =
     trim_hyphens (collapse_hyphens
       (map (\<lambda>c. if is_filename_char c then c else CHR ''-'') (toLowerCase name)))"

definition slugify :: "string \<Rightarrow> string" where
  "slugify text = trim_hyphens (replace_runs (toLowerCase text))"


text \<open>The shapes the claims speak of.\<close>

fun no_double_hyphen :: "string \<Rightarrow> bool" where
  "no_double_hyphen (c # d # s) =
     (\<not> (c = CHR ''-'' \<and> d = CHR ''-'') \<and> no_double_hyphen (d # s))"
| "no_double_hyphen _ = True"

definition no_edge_hyphen :: "string \<Rightarrow> bool" where
  "no_edge_hyphen s = (s = [] \<or> (hd s \<noteq> CHR ''-'' \<and> last s \<noteq> CHR ''-''))"

definition is_slug_char :: "char \<Rightarrow> bool" where
  "is_slug_char c = (is_az09 c \<or> c = CHR ''-'')"


section \<open>JSON values and their conversions\<close>

text \<open>
  A JSON value as \<open>JSON.parse\<close> returns it. A number is an integer from \<open>-2^53\<close> to
  \<open>2^53 - 1\<close>, a signed word of 54 bits: a double holds each of them exactly, and \<open>String\<close>
  and \<open>JSON.stringify\<close> write each of them in decimal. Fractions and larger magnitudes,
  which are rounded and from \<open>10^21\<close> on written with an exponent, are outside the
  model. An object is the list of its entries in the order of
  \<open>Object.entries\<close>. The value \<open>undefined\<close> of a property that is not there is
  \<open>None\<close> of \<open>json option\<close>.
\<close>

datatype json =
    JNull
  | JBool bool
  | JNumber "54 word"
  | JString string
  | JArray "json list"
  | JObject "(string \<times> json) list"

text \<open>
  A thrown error: its kind, and a message that stands for the one of the runtime (for a
  system error the code and the path). \<open>String(err)\<close> is the kind, a colon and the message.
\<close>

datatype js_error = TypeError string | SyntaxError string | SystemError string string

definition String_err :: "js_error \<Rightarrow> string" where
  "String_err e =
     (case e of
        TypeError m \<Rightarrow> ''TypeError: '' @ m
      | SyntaxError m \<Rightarrow> ''SyntaxError: '' @ m
      | SystemError code p \<Rightarrow> ''Error: '' @ code @ '': '' @ p)"

text \<open>Decimal notation, and \<open>Array.prototype.join\<close>.\<close>

definition digit_char :: "int \<Rightarrow> char" where
  "digit_char n = char_of (48 + n mod 10)"

function show_digits :: "int \<Rightarrow> string" where
  "show_digits n = (if n < 10 then [digit_char n] else show_digits (n div 10) @ [digit_char n])"
  by pat_completeness auto
termination
  by (relation "measure nat") auto

declare show_digits.simps [simp del]

definition show_int :: "int \<Rightarrow> string" where
  "show_int i = (if i < 0 then CHR ''-'' # show_digits (- i) else show_digits i)"

fun join :: "string \<Rightarrow> string list \<Rightarrow> string" where
  "join sep [] = []"
| "join sep [x] = x"
| "join sep (x # y # xs) = x @ sep @ join sep (y # xs)"

text \<open>
  \<open>String(v)\<close>, which a template literal applies: an array is its elements joined by
  commas, with nothing for \<open>null\<close>.
\<close>

fun js_toString :: "json \<Rightarrow> string" where
  "js_toString JNull = ''null''"
| "js_toString (JBool b) = (if b then ''true'' else ''false'')"
| "js_toString (JNumber n) = show_int (sint n)"
| "js_toString (JString s) = s"
| "js_toString (JArray xs) =
     join '','' (map (\<lambda>x. if x = JNull then [] else js_toString x) xs)"
| "js_toString (JObject kvs) = ''[object Object]''"

subsection \<open>frontmatterToYaml\<close>

text \<open>\<open>/^\d{4}-\d{2}-\d{2}$/.test(value)\<close>\<close>

definition is_digit :: "char \<Rightarrow> bool" where
  "is_digit c = (let n = (of_char c :: nat) in 48 \<le> n \<and> n \<le> 57)"

fun is_date :: "string \<Rightarrow> bool" where
  "is_date [y1, y2, y3, y4, h1, m1, m2, h2, d1, d2] =
     (is_digit y1 \<and> is_digit y2 \<and> is_digit y3 \<and> is_digit y4 \<and> h1 = CHR ''-''
      \<and> is_digit m1 \<and> is_digit m2 \<and> h2 = CHR ''-'' \<and> is_digit d1 \<and> is_digit d2)"
| "is_date _ = False"

text \<open>\<open>value.replace(/"/g, '\\"')\<close>, and the test for a colon, a hash or a quote.\<close>

definition escape_quotes :: "string \<Rightarrow> string" where
  "escape_quotes s = concat (map (\<lambda>c. if c = CHR 0x22 then [CHR 0x5C, CHR 0x22] else [c]) s)"

definition needs_quotes :: "string \<Rightarrow> bool" where
  "needs_quotes s =
     (CHR '':'' \<in> set s \<or> CHR ''#'' \<in> set s \<or> CHR 0x22 \<in> set s \<or> CHR 0x27 \<in> set s)"

text \<open>
  The callback of \<open>.map\<close>, in the order of its tests (a value from JSON is never a
  \<open>Date\<close>); \<open>null\<close> is \<open>None\<close>.
\<close>

fun yaml_entry :: "string \<times> json \<Rightarrow> string option" where
  "yaml_entry (key, JString v) =
     (if is_date v then Some (key @ '': '' @ v)
      else if needs_quotes v then Some (key @ '': '' @ [CHR 0x22] @ escape_quotes v @ [CHR 0x22])
      else Some (key @ '': '' @ v))"
| "yaml_entry (key, JArray vs) =
     (if vs = [] then None
      else Some (key @ '':'' @ [CHR 0x0A]
                 @ join [CHR 0x0A] (map (\<lambda>v. ''  - '' @ js_toString v) vs)))"
| "yaml_entry (key, JBool b) = Some (key @ '': '' @ js_toString (JBool b))"
| "yaml_entry (key, JNumber n) = Some (key @ '': '' @ js_toString (JNumber n))"
| "yaml_entry (key, v) = Some (key @ '': '' @ js_toString v)"

text \<open>
  \<open>Object.entries\<close>: the entries of an object, the indexed elements of an array or of a
  string, nothing for a number or a boolean, a \<open>TypeError\<close> for \<open>undefined\<close> and \<open>null\<close>.
\<close>

fun index_entries :: "nat \<Rightarrow> json list \<Rightarrow> (string \<times> json) list" where
  "index_entries i [] = []"
| "index_entries i (x # xs) = (show_int (int i), x) # index_entries (Suc i) xs"

fun Object_entries :: "json option \<Rightarrow> js_error + (string \<times> json) list" where
  "Object_entries None = Inl (TypeError ''Cannot convert undefined or null to object'')"
| "Object_entries (Some JNull) = Inl (TypeError ''Cannot convert undefined or null to object'')"
| "Object_entries (Some (JObject kvs)) = Inr kvs"
| "Object_entries (Some (JArray xs)) = Inr (index_entries 0 xs)"
| "Object_entries (Some (JString s)) = Inr (index_entries 0 (map (\<lambda>c. JString [c]) s))"
| "Object_entries (Some v) = Inr []"

text \<open>\<open>.filter(Boolean)\<close> keeps the lines that are neither \<open>null\<close> nor empty.\<close>

definition truthy_line :: "string option \<Rightarrow> bool" where
  "truthy_line l = (l \<noteq> None \<and> l \<noteq> Some [])"

definition yaml_lines :: "(string \<times> json) list \<Rightarrow> string list" where
  "yaml_lines kvs = map the (filter truthy_line (map yaml_entry kvs))"

definition frontmatterToYaml :: "json option \<Rightarrow> js_error + string" where
  "frontmatterToYaml data =
     (case Object_entries data of
        Inl e \<Rightarrow> Inl e
      | Inr kvs \<Rightarrow> Inr (join [CHR 0x0A] (yaml_lines kvs)))"

subsection \<open>JSON.stringify\<close>

definition hex_digit :: "nat \<Rightarrow> char" where
  "hex_digit n = ''0123456789abcdef'' ! (n mod 16)"

definition json_escape_char :: "char \<Rightarrow> string" where
  "json_escape_char c =
     (if c = CHR 0x22 then [CHR 0x5C, CHR 0x22]
      else if c = CHR 0x5C then [CHR 0x5C, CHR 0x5C]
      else if c = CHR 0x08 then [CHR 0x5C, CHR ''b'']
      else if c = CHR 0x0C then [CHR 0x5C, CHR ''f'']
      else if c = CHR 0x0A then [CHR 0x5C, CHR ''n'']
      else if c = CHR 0x0D then [CHR 0x5C, CHR ''r'']
      else if c = CHR 0x09 then [CHR 0x5C, CHR ''t'']
      else if (of_char c :: nat) < 32
        then [CHR 0x5C, CHR ''u'', CHR ''0'', CHR ''0'',
              hex_digit (of_char c div 16), hex_digit (of_char c)]
      else [c])"

definition json_quote :: "string \<Rightarrow> string" where
  "json_quote s = [CHR 0x22] @ concat (map json_escape_char s) @ [CHR 0x22]"

fun JSON_stringify :: "json \<Rightarrow> string" where
  "JSON_stringify JNull = ''null''"
| "JSON_stringify (JBool b) = (if b then ''true'' else ''false'')"
| "JSON_stringify (JNumber n) = show_int (sint n)"
| "JSON_stringify (JString s) = json_quote s"
| "JSON_stringify (JArray xs) = ''['' @ join '','' (map JSON_stringify xs) @ '']''"
| "JSON_stringify (JObject kvs) =
     ''{'' @ join '','' (map (\<lambda>(k, v). json_quote k @ '':'' @ JSON_stringify v) kvs) @ ''}''"

section \<open>Paths (\<open>node:path\<close>, POSIX)\<close>

text \<open>\<open>String.prototype.startsWith\<close> is \<^const>\<open>prefix\<close>; \<open>s.split(c)\<close> is \<open>split_on c s\<close>.\<close>

fun split_on :: "char \<Rightarrow> string \<Rightarrow> string list" where
  "split_on c [] = [[]]"
| "split_on c (x # xs) =
     (if x = c then [] # split_on c xs
      else (case split_on c xs of [] \<Rightarrow> [[x]] | s # ss \<Rightarrow> (x # s) # ss))"

text \<open>
  \<open>normalizeString\<close> with \<open>allowAboveRoot = false\<close>: empty segments and \<open>.\<close> are skipped,
  \<open>..\<close> removes the last kept segment (none at the root), the accumulator is reversed.
\<close>

fun normalize_acc :: "string list \<Rightarrow> string list \<Rightarrow> string list" where
  "normalize_acc acc [] = rev acc"
| "normalize_acc acc (s # ss) =
     (if s = [] \<or> s = ''.'' then normalize_acc acc ss
      else if s = ''..'' then normalize_acc (tl acc) ss
      else normalize_acc (s # acc) ss)"

text \<open>
  \<open>path.resolve\<close> walks its arguments from the right, prefixing each non-empty one, until
  the path built so far is absolute; the working directory is the argument before the first.
\<close>

fun resolve_raw :: "string list \<Rightarrow> string" where
  "resolve_raw [] = []"
| "resolve_raw (p # ps) =
     (let r = resolve_raw ps
      in if prefix ''/'' r then r else if p = [] then r else p @ ''/'' @ r)"

definition path_resolve :: "string \<Rightarrow> string list \<Rightarrow> string" where
  "path_resolve cwd ps =
     CHR ''/'' # join ''/'' (normalize_acc [] (split_on CHR ''/'' (resolve_raw (cwd # ps))))"

text \<open>\<open>path.basename\<close>: trailing slashes are dropped, then what follows the last slash.\<close>

definition basename :: "string \<Rightarrow> string" where
  "basename p =
     rev (takeWhile (\<lambda>c. c \<noteq> CHR ''/'') (dropWhile (\<lambda>c. c = CHR ''/'') (rev p)))"

text \<open>
  \<open>path.extname\<close>: from the last dot of the basename, empty when there is no dot, when the
  last dot is the first character, or when the basename is \<open>..\<close>.
\<close>

definition extname :: "string \<Rightarrow> string" where
  "extname p =
     (let b = basename p; e = rev (takeWhile (\<lambda>c. c \<noteq> CHR ''.'') (rev b))
      in if CHR ''.'' \<notin> set b \<or> length e + 1 = length b \<or> b = ''..'' then []
         else CHR ''.'' # e)"

definition dirname :: "string \<Rightarrow> string" where
  "dirname p =
     (let d = butlast (rev (dropWhile (\<lambda>c. c \<noteq> CHR ''/'') (rev p)))
      in if d = [] then ''/'' else d)"

text \<open>The directories a recursive \<open>mkdir\<close> walks through, the outermost first.\<close>

fun ancestors_from :: "string \<Rightarrow> string list \<Rightarrow> string list" where
  "ancestors_from base [] = []"
| "ancestors_from base (s # ss) = (base @ ''/'' @ s) # ancestors_from (base @ ''/'' @ s) ss"

definition ancestors_and_self :: "string \<Rightarrow> string list" where
  "ancestors_and_self p = ancestors_from [] (normalize_acc [] (split_on CHR ''/'' p))"

text \<open>
  A path lies directly inside a directory when it is the directory, a slash and one
  proper name; it is contained in it when it is the directory or below it.
\<close>

definition directly_inside :: "string \<Rightarrow> string \<Rightarrow> bool" where
  "directly_inside dir p =
     (prefix (dir @ ''/'') p
      \<and> (let n = drop (length dir + 1) p
         in n \<noteq> [] \<and> n \<noteq> ''.'' \<and> n \<noteq> ''..'' \<and> CHR ''/'' \<notin> set n))"

definition contained_in :: "string \<Rightarrow> string \<Rightarrow> bool" where
  "contained_in dir p = (p = dir \<or> prefix (dir @ ''/'') p)"

section \<open>The file system\<close>

text \<open>
  The file system is an association list from normalized absolute paths to nodes; the root
  \<open>/\<close> is always a directory. File contents, text or bytes, are strings. A failing call
  leaves the file system as it was.
\<close>

datatype node = File string | Dir

type_synonym fs = "(string \<times> node) list"

definition lookup :: "fs \<Rightarrow> string \<Rightarrow> node option" where
  "lookup fs p = map_of fs p"

definition is_dir :: "fs \<Rightarrow> string \<Rightarrow> bool" where
  "is_dir fs p = (p = ''/'' \<or> lookup fs p = Some Dir)"

definition existsSync :: "fs \<Rightarrow> string \<Rightarrow> bool" where
  "existsSync fs p = (p = ''/'' \<or> lookup fs p \<noteq> None)"

definition writeFile :: "fs \<Rightarrow> string \<Rightarrow> string \<Rightarrow> js_error + fs" where
  "writeFile fs p content =
     (if is_dir fs p then Inl (SystemError ''EISDIR'' p)
      else if \<not> is_dir fs (dirname p) then Inl (SystemError ''ENOENT'' p)
      else Inr (AList.update p (File content) fs))"

definition readFile :: "fs \<Rightarrow> string \<Rightarrow> js_error + string" where
  "readFile fs p =
     (if is_dir fs p then Inl (SystemError ''EISDIR'' p)
      else (case lookup fs p of
              Some (File content) \<Rightarrow> Inr content
            | _ \<Rightarrow> Inl (SystemError ''ENOENT'' p)))"

definition unlink :: "fs \<Rightarrow> string \<Rightarrow> js_error + fs" where
  "unlink fs p =
     (if is_dir fs p then Inl (SystemError ''EISDIR'' p)
      else (case lookup fs p of
              Some (File content) \<Rightarrow> Inr (AList.delete p fs)
            | _ \<Rightarrow> Inl (SystemError ''ENOENT'' p)))"

fun add_dirs :: "fs \<Rightarrow> string list \<Rightarrow> fs" where
  "add_dirs fs [] = fs"
| "add_dirs fs (d # ds) = add_dirs (if lookup fs d = None then AList.update d Dir fs else fs) ds"

definition is_file :: "fs \<Rightarrow> string \<Rightarrow> bool" where
  "is_file fs p = (case lookup fs p of Some (File content) \<Rightarrow> True | _ \<Rightarrow> False)"

text \<open>\<open>mkdir(p, { recursive: true })\<close> fails when \<open>p\<close> or a directory above it is a file.\<close>

definition mkdir_recursive :: "fs \<Rightarrow> string \<Rightarrow> js_error + fs" where
  "mkdir_recursive fs p =
     (if list_ex (is_file fs) (ancestors_and_self p) then Inl (SystemError ''EEXIST'' p)
      else Inr (add_dirs fs (ancestors_and_self p)))"

definition child_name :: "string \<Rightarrow> string \<Rightarrow> string option" where
  "child_name dir p =
     (let d = (if dir = ''/'' then [] else dir)
      in if prefix (d @ ''/'') p \<and> length d + 1 < length p
            \<and> CHR ''/'' \<notin> set (drop (length d + 1) p)
         then Some (drop (length d + 1) p) else None)"

definition readdir :: "fs \<Rightarrow> string \<Rightarrow> js_error + string list" where
  "readdir fs p =
     (if \<not> is_dir fs p then Inl (SystemError ''ENOTDIR'' p)
      else Inr (remdups (List.map_filter (child_name p) (map fst fs))))"

text \<open>A clean segment is what a normalized path is made of.\<close>

definition clean :: "string \<Rightarrow> bool" where
  "clean s = (s \<noteq> [] \<and> s \<noteq> ''.'' \<and> s \<noteq> ''..'' \<and> CHR ''/'' \<notin> set s)"

definition render :: "string list \<Rightarrow> string" where
  "render segs = CHR ''/'' # join ''/'' segs"

section \<open>Requests, responses and the environment\<close>

text \<open>
  \<open>JSON.stringify(data, null, 2)\<close>: nested values are indented by two more spaces; an
  empty array or object stays on one line.
\<close>

fun JSON_stringify_indent :: "nat \<Rightarrow> json \<Rightarrow> string" where
  "JSON_stringify_indent ind (JArray xs) =
     (if xs = [] then ''[]''
      else ''['' @ [CHR 0x0A]
           @ join ('','' @ [CHR 0x0A])
               (map (\<lambda>x. replicate (ind + 2) CHR '' '' @ JSON_stringify_indent (ind + 2) x) xs)
           @ [CHR 0x0A] @ replicate ind CHR '' '' @ '']'')"
| "JSON_stringify_indent ind (JObject kvs) =
     (if kvs = [] then ''{}''
      else ''{'' @ [CHR 0x0A]
           @ join ('','' @ [CHR 0x0A])
               (map (\<lambda>(k, v). replicate (ind + 2) CHR '' '' @ json_quote k @ '': ''
                                @ JSON_stringify_indent (ind + 2) v) kvs)
           @ [CHR 0x0A] @ replicate ind CHR '' '' @ ''}'')"
| "JSON_stringify_indent ind v = JSON_stringify v"

text \<open>
  What the middleware cannot compute by itself is a field of the environment: the working
  directory, the base64 codec of \<open>Buffer\<close>, what \<open>Buffer.from\<close> makes of a chunk that is
  not a string, the image conversion of \<open>sharp\<close>, and what \<open>stat\<close> reports beyond the length
  of a file.
\<close>

record env =
  cwd :: string
  Buffer_from_base64 :: "json option \<Rightarrow> js_error + string"
  Buffer_toString_base64 :: "string \<Rightarrow> string"
  Buffer_from_chunk :: "json \<Rightarrow> js_error + string"
  sharp_jpeg :: "string \<Rightarrow> js_error + string"
  stat_dir_size :: "string \<Rightarrow> int"
  stat_mtime :: "string \<Rightarrow> string"

text \<open>
  A request carries its URL (\<open>req.url\<close> may be undefined), its method, and what
  \<open>readJsonBody\<close> settles with: the value \<open>JSON.parse\<close> returns for the received body, or
  the error it throws.
\<close>

record request =
  req_url :: "string option"
  req_method :: string
  req_json :: "js_error + json"

datatype outcome =
    Next
  | Response (statusCode: nat) (res_headers: "(string \<times> string) list") (res_body: string)

definition readJsonBody :: "request \<Rightarrow> js_error + json" where
  "readJsonBody req = req_json req"

definition raw_response :: "nat \<Rightarrow> string \<Rightarrow> outcome" where
  "raw_response st text = Response st [(''Content-Type'', ''application/json'')] text"

definition json_response :: "nat \<Rightarrow> json \<Rightarrow> outcome" where
  "json_response st v = raw_response st (JSON_stringify v)"

definition error_response :: "nat \<Rightarrow> string \<Rightarrow> outcome" where
  "error_response st msg = json_response st (JObject [(''error'', JString msg)])"

definition success_response :: "(string \<times> json) list \<Rightarrow> outcome" where
  "success_response extra = json_response 200 (JObject ((''success'', JBool True) # extra))"

definition error500 :: "js_error \<Rightarrow> outcome" where
  "error500 err = error_response 500 (String_err err)"

text \<open>
  \<open>try { ... } catch (err) { res.statusCode = 500; ... String(err) }\<close>: a thrown error ends
  the handler with status 500 and the file system as it is at the throw.
\<close>

definition try_catch :: "fs \<Rightarrow> js_error + 'a \<Rightarrow> ('a \<Rightarrow> outcome \<times> fs) \<Rightarrow> outcome \<times> fs" where
  "try_catch fs r k = (case r of Inl err \<Rightarrow> (error500 err, fs) | Inr x \<Rightarrow> k x)"

text \<open>
  Destructuring \<open>const { a, b } = value\<close> throws on \<open>null\<close>; a property that is not there
  reads as \<open>undefined\<close>, here \<open>None\<close>. The keys of an object are distinct, so the first
  entry of a key is its entry.
\<close>

definition destructure :: "json \<Rightarrow> js_error + (string \<Rightarrow> json option)" where
  "destructure v =
     (case v of
        JNull \<Rightarrow> Inl (TypeError ''Cannot destructure null'')
      | JObject kvs \<Rightarrow> Inr (map_of kvs)
      | _ \<Rightarrow> Inr (\<lambda>k. None))"

text \<open>
  A string method called on a value that is not a string throws a \<open>TypeError\<close>; so does
  \<open>path.resolve\<close> for a path that is not a string.
\<close>

definition string_arg :: "json option \<Rightarrow> js_error + string" where
  "string_arg v =
     (case v of Some (JString s) \<Rightarrow> Inr s | _ \<Rightarrow> Inl (TypeError ''not a string''))"

text \<open>
  Truthiness (\<open>a && b\<close>, \<open>a || b\<close>, \<open>!a\<close>), the string a template literal inserts, and
  \<open>Array.prototype.includes\<close> on an array of strings.
\<close>

definition truthy :: "json option \<Rightarrow> bool" where
  "truthy v =
     (case v of
        None \<Rightarrow> False
      | Some JNull \<Rightarrow> False
      | Some (JBool b) \<Rightarrow> b
      | Some (JNumber n) \<Rightarrow> n \<noteq> 0
      | Some (JString s) \<Rightarrow> s \<noteq> []
      | Some _ \<Rightarrow> True)"

definition template :: "json option \<Rightarrow> string" where
  "template v = (case v of None \<Rightarrow> ''undefined'' | Some x \<Rightarrow> js_toString x)"

definition array_includes :: "string list \<Rightarrow> json option \<Rightarrow> bool" where
  "array_includes xs v = (case v of Some (JString s) \<Rightarrow> s \<in> set xs | _ \<Rightarrow> False)"

text \<open>The segments of the working directory, and the directories of the plugin.\<close>

definition base_segments :: "env \<Rightarrow> string list" where
  "base_segments e = normalize_acc [] (split_on CHR ''/'' (cwd e))"

definition contentDir :: "env \<Rightarrow> string" where
  "contentDir e = path_resolve (cwd e) [''src/content'']"

definition dataDir :: "env \<Rightarrow> string" where
  "dataDir e = path_resolve (cwd e) [''src/data'']"

definition galleryDir :: "env \<Rightarrow> string" where
  "galleryDir e = path_resolve (cwd e) [''public/gallery'']"

definition galleryConfigPath :: "env \<Rightarrow> string" where
  "galleryConfigPath e = path_resolve (cwd e) [dataDir e, ''gallery-config.json'']"

definition memesDir :: "env \<Rightarrow> string" where
  "memesDir e = path_resolve (cwd e) [''public/memes'']"

definition memesConfigPath :: "env \<Rightarrow> string" where
  "memesConfigPath e = path_resolve (cwd e) [dataDir e, ''memes-config.json'']"

section \<open>The handlers of the dev-editor middleware\<close>

subsection \<open>Save\<close>

text \<open>
  \<open>fs.promises.writeFile(path, data, 'utf-8')\<close> with data from a request. A string is
  written as it is. An array is an iterable of chunks: the file is opened first, which
  creates or empties it, then the chunks are appended one by one, a string as it is and
  another value through \<open>Buffer.from\<close>, whose error leaves what was written so far. Any
  other data is refused before the file is opened.
\<close>

fun write_chunks ::
  "env \<Rightarrow> fs \<Rightarrow> string \<Rightarrow> string \<Rightarrow> json list \<Rightarrow> (js_error + unit) \<times> fs" where
  "write_chunks e fs p written [] = (Inr (), fs)"
| "write_chunks e fs p written (c # cs) =
     (case (case c of JString s \<Rightarrow> Inr s | _ \<Rightarrow> Buffer_from_chunk e c) of
        Inl err \<Rightarrow> (Inl err, fs)
      | Inr bytes \<Rightarrow>
          write_chunks e (AList.update p (File (written @ bytes)) fs) p (written @ bytes) cs)"

definition writeFile_data ::
  "env \<Rightarrow> fs \<Rightarrow> string \<Rightarrow> json option \<Rightarrow> (js_error + unit) \<times> fs" where
  "writeFile_data e fs p data =
     (case data of
        Some (JString s) \<Rightarrow>
          (case writeFile fs p s of Inl err \<Rightarrow> (Inl err, fs) | Inr fs' \<Rightarrow> (Inr (), fs'))
      | Some (JArray chunks) \<Rightarrow>
          (case writeFile fs p [] of
             Inl err \<Rightarrow> (Inl err, fs)
           | Inr fs' \<Rightarrow> write_chunks e fs' p [] chunks)
      | _ \<Rightarrow> (Inl (TypeError ''data must be a string or an iterable''), fs))"

definition save_handler :: "env \<Rightarrow> fs \<Rightarrow> request \<Rightarrow> outcome \<times> fs" where
  "save_handler e fs req =
     try_catch fs (readJsonBody req) (\<lambda>b.
     try_catch fs (destructure b) (\<lambda>field.
     try_catch fs (string_arg (field ''filePath'')) (\<lambda>filePath.
       let absolutePath = path_resolve (cwd e) [filePath]
       in if \<not> prefix (contentDir e) absolutePath
          then (error_response 403 ''Can only edit content files'', fs)
          else
            (case writeFile_data e fs absolutePath (field ''content'') of
               (written, fs') \<Rightarrow> try_catch fs' written (\<lambda>u. (success_response [], fs'))))))"

subsection \<open>Create\<close>

definition allowedCollections :: "string list" where
  "allowedCollections = [''books'', ''games'', ''blog'']"

definition markdownContent :: "string \<Rightarrow> json option \<Rightarrow> string" where
  "markdownContent yamlFrontmatter body =
     ''---'' @ [CHR 0x0A] @ yamlFrontmatter @ [CHR 0x0A] @ ''---'' @ [CHR 0x0A, CHR 0x0A]
     @ (if truthy body then template body else [])"

definition create_handler :: "env \<Rightarrow> fs \<Rightarrow> request \<Rightarrow> outcome \<times> fs" where
  "create_handler e fs req =
     try_catch fs (readJsonBody req) (\<lambda>b.
     try_catch fs (destructure b) (\<lambda>field.
       if \<not> array_includes allowedCollections (field ''collection'')
       then (error_response 400 (''Invalid collection: '' @ template (field ''collection'')), fs)
       else
         try_catch fs (string_arg (field ''slug'')) (\<lambda>slug.
           let safeSlug = slugify slug
           in if safeSlug = [] then (error_response 400 ''Invalid slug'', fs)
              else
                let collection = template (field ''collection'');
                    filePath = path_resolve (cwd e) [contentDir e, collection, safeSlug @ ''.md'']
                in if existsSync fs filePath
                   then (error_response 409 ''File already exists'', fs)
                   else
                     try_catch fs (frontmatterToYaml (field ''frontmatter'')) (\<lambda>yamlFrontmatter.
                     try_catch fs (writeFile fs filePath
                               (markdownContent yamlFrontmatter (field ''body''))) (\<lambda>fs'.
                       (success_response
                          [(''filePath'',
                            JString (''src/content/'' @ collection @ ''/'' @ safeSlug @ ''.md''))],
                        fs'))))))"

subsection \<open>Upload (gallery and memes)\<close>

definition allowedTypes :: "string list" where
  "allowedTypes =
     [''image/jpeg'', ''image/png'', ''image/webp'', ''image/gif'', ''image/heic'', ''image/heif'']"

text \<open>\<open>/\.(jpg|jpeg|png|webp|gif|heic|heif)$/i\<close>\<close>

definition has_image_suffix :: "string \<Rightarrow> bool" where
  "has_image_suffix s =
     list_ex (\<lambda>x. suffix (CHR ''.'' # x) (toLowerCase s))
       [''jpg'', ''jpeg'', ''png'', ''webp'', ''gif'', ''heic'', ''heif'']"

text \<open>
  The two upload handlers differ in the directory and in the URL prefix of the answer only:
  \<open>upload_handler e (galleryDir e) ''/gallery/''\<close> and \<open>upload_handler e (memesDir e) ''/memes/''\<close>.
\<close>

definition upload_handler :: "env \<Rightarrow> string \<Rightarrow> string \<Rightarrow> fs \<Rightarrow> request \<Rightarrow> outcome \<times> fs" where
  "upload_handler e dir url_prefix fs req =
     try_catch fs (readJsonBody req) (\<lambda>b.
     try_catch fs (destructure b) (\<lambda>field.
       if truthy (field ''mimeType'') \<and> \<not> array_includes allowedTypes (field ''mimeType'')
       then (error_response 400 ''Invalid image type'', fs)
       else
         try_catch fs (string_arg (field ''filename'')) (\<lambda>filename.
           let safeFilename = sanitizeFilename filename
           in if safeFilename = [] \<or> \<not> has_image_suffix safeFilename
              then (error_response 400 ''Invalid filename'', fs)
              else
                try_catch fs (mkdir_recursive fs dir) (\<lambda>fs1.
                  let filePath = path_resolve (cwd e) [dir, safeFilename]
                  in try_catch fs1 (Buffer_from_base64 e (field ''data'')) (\<lambda>buffer.
                     try_catch fs1 (writeFile fs1 filePath buffer) (\<lambda>fs2.
                       (success_response [(''path'', JString (url_prefix @ safeFilename))],
                        fs2)))))))"

subsection \<open>Delete (gallery and memes)\<close>

text \<open>
  The two delete handlers differ in the directory, the URL prefix and one message only:
  \<open>delete_handler e (galleryDir e) ''/gallery/'' ''Can only delete gallery images''\<close> and
  \<open>delete_handler e (memesDir e) ''/memes/'' ''Can only delete meme images''\<close>.
\<close>

definition delete_handler ::
  "env \<Rightarrow> string \<Rightarrow> string \<Rightarrow> string \<Rightarrow> fs \<Rightarrow> request \<Rightarrow> outcome \<times> fs" where
  "delete_handler e dir url_prefix refusal fs req =
     try_catch fs (readJsonBody req) (\<lambda>b.
     try_catch fs (destructure b) (\<lambda>field.
     try_catch fs (string_arg (field ''path'')) (\<lambda>imagePath.
       if \<not> prefix url_prefix imagePath then (error_response 403 refusal, fs)
       else
         let filename = basename imagePath;
             absolutePath = path_resolve (cwd e) [dir, filename]
         in if \<not> prefix dir absolutePath then (error_response 403 ''Invalid path'', fs)
            else if \<not> existsSync fs absolutePath then (error_response 404 ''File not found'', fs)
            else
              try_catch fs (unlink fs absolutePath) (\<lambda>fs'.
                (success_response [], fs')))))"

subsection \<open>Convert HEIC to JPEG\<close>

definition convert_handler :: "env \<Rightarrow> fs \<Rightarrow> request \<Rightarrow> outcome \<times> fs" where
  "convert_handler e fs req =
     try_catch fs (readJsonBody req) (\<lambda>b.
     try_catch fs (destructure b) (\<lambda>field.
     try_catch fs (Buffer_from_base64 e (field ''data'')) (\<lambda>heicBuffer.
     try_catch fs (sharp_jpeg e heicBuffer) (\<lambda>jpegBuffer.
       (success_response [(''data'', JString (Buffer_toString_base64 e jpegBuffer))], fs)))))"

subsection \<open>List (gallery and memes)\<close>

definition imageExtensions :: "string list" where
  "imageExtensions = [''.jpg'', ''.jpeg'', ''.png'', ''.webp'', ''.gif'', ''.heic'', ''.heif'']"

definition stat_size :: "env \<Rightarrow> fs \<Rightarrow> string \<Rightarrow> int" where
  "stat_size e fs p =
     (case lookup fs p of Some (File content) \<Rightarrow> int (length content) | _ \<Rightarrow> stat_dir_size e p)"

definition image_entry :: "env \<Rightarrow> fs \<Rightarrow> string \<Rightarrow> string \<Rightarrow> string \<Rightarrow> json" where
  "image_entry e fs dir url_prefix filename =
     (let filePath = path_resolve (cwd e) [dir, filename]
      in JObject [(''filename'', JString filename),
                  (''path'', JString (url_prefix @ filename)),
                  (''size'', JNumber (word_of_int (stat_size e fs filePath))),
                  (''modified'', JString (stat_mtime e filePath))])"

definition list_handler :: "env \<Rightarrow> string \<Rightarrow> string \<Rightarrow> fs \<Rightarrow> request \<Rightarrow> outcome \<times> fs" where
  "list_handler e dir url_prefix fs req =
     try_catch fs (mkdir_recursive fs dir) (\<lambda>fs1.
     try_catch fs1 (readdir fs1 dir) (\<lambda>files.
       let images =
             map (image_entry e fs1 dir url_prefix)
               (filter (\<lambda>f. toLowerCase (extname f) \<in> set imageExtensions) files)
       in (json_response 200 (JObject [(''images'', JArray images)]), fs1)))"

subsection \<open>Gallery and memes configuration\<close>

text \<open>
  The block of a configuration URL creates the data directory outside any \<open>try\<close>, so its
  failure reaches the \<open>catch\<close> of the whole dispatch; a method other than GET and POST leaves
  the block and goes on to the checks that follow it (\<open>rest\<close>).
\<close>

definition config_block ::
  "env \<Rightarrow> string \<Rightarrow> (fs \<Rightarrow> outcome \<times> fs) \<Rightarrow> fs \<Rightarrow> request \<Rightarrow> outcome \<times> fs" where
  "config_block e configPath rest fs req =
     try_catch fs (mkdir_recursive fs (dataDir e)) (\<lambda>fs1.
       if req_method req = ''GET'' then
         (if existsSync fs1 configPath
          then try_catch fs1 (readFile fs1 configPath) (\<lambda>content. (raw_response 200 content, fs1))
          else (json_response 200 (JObject [(''images'', JArray [])]), fs1))
       else if req_method req = ''POST'' then
         try_catch fs1 (readJsonBody req) (\<lambda>data.
         try_catch fs1 (writeFile fs1 configPath (JSON_stringify_indent 0 data)) (\<lambda>fs2.
           (success_response [], fs2)))
       else rest fs1)"

subsection \<open>The dispatcher\<close>

definition unknown_endpoint :: "fs \<Rightarrow> outcome \<times> fs" where
  "unknown_endpoint fs = (error_response 404 ''Unknown endpoint'', fs)"

definition dispatch_after_memes :: "env \<Rightarrow> string \<Rightarrow> request \<Rightarrow> fs \<Rightarrow> outcome \<times> fs" where
  "dispatch_after_memes e url req fs =
     (if url = ''/__dev-editor/upload-meme'' \<and> req_method req = ''POST''
        then upload_handler e (memesDir e) ''/memes/'' fs req
      else if url = ''/__dev-editor/delete-meme'' \<and> req_method req = ''DELETE''
        then delete_handler e (memesDir e) ''/memes/'' ''Can only delete meme images'' fs req
      else if url = ''/__dev-editor/list-memes'' \<and> req_method req = ''GET''
        then list_handler e (memesDir e) ''/memes/'' fs req
      else unknown_endpoint fs)"

definition dispatch_after_gallery :: "env \<Rightarrow> string \<Rightarrow> request \<Rightarrow> fs \<Rightarrow> outcome \<times> fs" where
  "dispatch_after_gallery e url req fs =
     (if url = ''/__dev-editor/memes''
        then config_block e (memesConfigPath e) (dispatch_after_memes e url req) fs req
      else dispatch_after_memes e url req fs)"

definition dispatch :: "env \<Rightarrow> string \<Rightarrow> fs \<Rightarrow> request \<Rightarrow> outcome \<times> fs" where
  "dispatch e url fs req =
     (if url = ''/__dev-editor/save'' \<and> req_method req = ''POST''
        then save_handler e fs req
      else if url = ''/__dev-editor/create'' \<and> req_method req = ''POST''
        then create_handler e fs req
      else if url = ''/__dev-editor/upload'' \<and> req_method req = ''POST''
        then upload_handler e (galleryDir e) ''/gallery/'' fs req
      else if url = ''/__dev-editor/delete'' \<and> req_method req = ''DELETE''
        then delete_handler e (galleryDir e) ''/gallery/'' ''Can only delete gallery images'' fs req
      else if url = ''/__dev-editor/convert-heic'' \<and> req_method req = ''POST''
        then convert_handler e fs req
      else if url = ''/__dev-editor/list-images'' \<and> req_method req = ''GET''
        then list_handler e (galleryDir e) ''/gallery/'' fs req
      else if url = ''/__dev-editor/gallery''
        then config_block e (galleryConfigPath e) (dispatch_after_gallery e url req) fs req
      else dispatch_after_gallery e url req fs)"

text \<open>
  The middleware: \<open>req.url?.split('?')[0]\<close> is what precedes the first \<open>?\<close>; then \<open>next()\<close> unless the URL starts with
  \<open>/__dev-editor/\<close>.
\<close>

definition middleware :: "env \<Rightarrow> fs \<Rightarrow> request \<Rightarrow> outcome \<times> fs" where
  "middleware e fs req =
     (case req_url req of
        None \<Rightarrow> (Next, fs)
      | Some raw \<Rightarrow>
          let url = takeWhile (\<lambda>c. c \<noteq> CHR ''?'') raw
          in if \<not> prefix ''/__dev-editor/'' url then (Next, fs) else dispatch e url fs req)"

text \<open>
  A request targets a path with a method when its URL, up to the first \<open>?\<close>, is that path
  and its method is that method.
\<close>

definition targets :: "request \<Rightarrow> string \<Rightarrow> string \<Rightarrow> bool" where
  "targets req url method =
     (case req_url req of
        None \<Rightarrow> False
      | Some raw \<Rightarrow> takeWhile (\<lambda>c. c \<noteq> CHR ''?'') raw = url \<and> req_method req = method)"

text \<open>The endpoint-and-method combinations the dispatcher answers by a handler.\<close>

definition defined_endpoints :: "(string \<times> string) list" where
  "defined_endpoints =
     [(''/__dev-editor/save'', ''POST''), (''/__dev-editor/create'', ''POST''),
      (''/__dev-editor/upload'', ''POST''), (''/__dev-editor/delete'', ''DELETE''),
      (''/__dev-editor/convert-heic'', ''POST''), (''/__dev-editor/list-images'', ''GET''),
      (''/__dev-editor/gallery'', ''GET''), (''/__dev-editor/gallery'', ''POST''),
      (''/__dev-editor/memes'', ''GET''), (''/__dev-editor/memes'', ''POST''),
      (''/__dev-editor/upload-meme'', ''POST''), (''/__dev-editor/delete-meme'', ''DELETE''),
      (''/__dev-editor/list-memes'', ''GET'')]"

text \<open>
  The outcomes of the uniform error pattern: success, one of the explicit error statuses,
  or status 500 with the caught error as a string.
\<close>

definition uniform :: "outcome \<Rightarrow> bool" where
  "uniform out =
     ((\<exists>st h b. out = Response st h b \<and> st \<in> {200, 400, 403, 404, 409})
      \<or> (\<exists>err. out = error500 err))"

definition dq :: string where
  "dq = [CHR 0x22]"

text \<open>
  An environment and a project tree to run the handlers on; the identity stands for the
  base64 codec and for the image conversion, and a chunk that is not a string is refused.
\<close>

definition env0 :: env where
  "env0 = \<lparr> cwd = ''/site'',
            Buffer_from_base64 = (\<lambda>v. case v of Some (JString s) \<Rightarrow> Inr s
                                          | _ \<Rightarrow> Inl (TypeError ''not a string'')),
            Buffer_toString_base64 = (\<lambda>s. s),
            Buffer_from_chunk = (\<lambda>v. Inl (TypeError ''not a string'')),
            sharp_jpeg = (\<lambda>s. Inr s),
            stat_dir_size = (\<lambda>p. 4096),
            stat_mtime = (\<lambda>p. ''2024-01-01T00:00:00.000Z'') \<rparr>"

definition fs0 :: fs where
  "fs0 = [(''/site'', Dir), (''/site/src'', Dir), (''/site/src/content'', Dir),
          (''/site/src/content/blog'', Dir),
          (''/site/src/content/blog/hello.md'', File ''old''),
          (''/site/src/content/books'', Dir),
          (''/site/src/content-drafts'', Dir),
          (''/site/public'', Dir), (''/site/public/gallery'', Dir),
          (''/site/public/gallery/cat.png'', File ''png''),
          (''/site/public/secret.txt'', File ''secret'')]"

definition request_of :: "string \<Rightarrow> string \<Rightarrow> json \<Rightarrow> request" where
  "request_of method url v = \<lparr> req_url = Some url, req_method = method, req_json = Inr v \<rparr>"

section \<open>Integer literals\<close>


section \<open>JSON.parse\<close>

text \<open>
  A model of \<open>JSON.parse\<close> on the texts this development can hold: the grammar of JSON
  with the integers from \<open>-2^53\<close> to \<open>2^53 - 1\<close> for numbers (a fraction, an exponent or
  a larger magnitude is outside the model and gives \<open>None\<close>, as a syntax error does) and
  code units below 256 in strings. An object is
  the list of its members in the order of the text. The three mutually recursive
  parsers spend one unit of fuel per call; \<open>JSON_parse\<close> gives them the length of the
  text, and each call reads one character at least.
\<close>

definition is_ws :: "char \<Rightarrow> bool" where
  "is_ws c = (c = CHR '' '' \<or> c = CHR 0x09 \<or> c = CHR 0x0A \<or> c = CHR 0x0D)"

definition skip_ws :: "string \<Rightarrow> string" where
  "skip_ws s = dropWhile is_ws s"


definition hex_value :: "char \<Rightarrow> nat option" where
  "hex_value c =
     (let n = (of_char c :: nat)
      in if 48 \<le> n \<and> n \<le> 57 then Some (n - 48)
         else if 97 \<le> n \<and> n \<le> 102 then Some (n - 87)
         else if 65 \<le> n \<and> n \<le> 70 then Some (n - 55)
         else None)"




definition read_digits :: "string \<Rightarrow> int" where
  "read_digits s = foldl (\<lambda>a c. 10 * a + (of_char c - 48)) 0 s"





text \<open>
  What may follow a value in a text, and the texts of the elements of an array and of the
  members of an object at an indentation.
\<close>

definition delimited :: "string \<Rightarrow> bool" where
  "delimited rest = (rest = [] \<or> hd rest = CHR '','' \<or> hd rest = CHR 0x0A)"

definition elements_text :: "nat \<Rightarrow> json list \<Rightarrow> string" where
  "elements_text ind xs =
     join ('','' @ [CHR 0x0A]) (map (\<lambda>x. replicate ind CHR '' '' @ JSON_stringify_indent ind x) xs)"

definition members_text :: "nat \<Rightarrow> (string \<times> json) list \<Rightarrow> string" where
  "members_text ind kvs =
     join ('','' @ [CHR 0x0A])
       (map (\<lambda>(k, v). replicate ind CHR '' '' @ json_quote k @ '': ''
                        @ JSON_stringify_indent ind v) kvs)"

section \<open>Properties of path resolution\<close>

lemma split_on_nonempty [simp]: "split_on c xs \<noteq> []"
  by (induction xs) (auto split: list.splits)

lemma split_on_append: "split_on c (xs @ c # ys) = split_on c xs @ split_on c ys"
  by (induction xs) (auto split: list.splits)

lemma split_on_no_sep: "c \<notin> set xs \<Longrightarrow> split_on c xs = [xs]"
  by (induction xs) (auto split: list.splits)

lemma split_on_segments: "s \<in> set (split_on c xs) \<Longrightarrow> c \<notin> set s"
  by (induction xs arbitrary: s) (auto split: list.splits if_splits)

lemma normalize_acc_append:
  "normalize_acc acc (xs @ ys) = normalize_acc (rev (normalize_acc acc xs)) ys"
  by (induction xs arbitrary: acc) auto

lemma normalize_acc_clean: "list_all clean ys \<Longrightarrow> normalize_acc acc ys = rev acc @ ys"
  by (induction ys arbitrary: acc) (auto simp: clean_def)

lemma list_all_tl: "list_all P xs \<Longrightarrow> list_all P (tl xs)"
  by (cases xs) auto

lemma normalize_acc_all_clean:
  "list_all clean acc \<Longrightarrow> \<forall>s \<in> set xs. CHR ''/'' \<notin> set s
   \<Longrightarrow> list_all clean (normalize_acc acc xs)"
proof (induction xs arbitrary: acc)
  case Nil
  then show ?case by (simp add: list_all_iff)
next
  case (Cons s xs)
  then show ?case by (auto simp: clean_def list_all_tl)
qed

lemma join_Cons: "xs \<noteq> [] \<Longrightarrow> join sep (x # xs) = x @ sep @ join sep xs"
  by (cases xs) auto

lemma join_snoc: "xs \<noteq> [] \<Longrightarrow> join sep (xs @ [x]) = join sep xs @ sep @ x"
  by (induction sep xs rule: join.induct) auto

lemma join_append:
  "xs \<noteq> [] \<Longrightarrow> ys \<noteq> [] \<Longrightarrow> join sep (xs @ ys) = join sep xs @ sep @ join sep ys"
  by (induction sep xs rule: join.induct) (auto simp: join_Cons)

lemma split_join:
  "list_all clean segs \<Longrightarrow> segs \<noteq> [] \<Longrightarrow> split_on CHR ''/'' (join ''/'' segs) = segs"
proof (induction segs)
  case Nil
  then show ?case by simp
next
  case (Cons s segs)
  show ?case
  proof (cases "segs = []")
    case True
    with Cons.prems show ?thesis by (simp add: split_on_no_sep clean_def)
  next
    case False
    then have "join ''/'' (s # segs) = s @ CHR ''/'' # join ''/'' segs"
      by (simp add: join_Cons)
    with Cons False show ?thesis
      by (simp add: split_on_append split_on_no_sep clean_def)
  qed
qed

lemma split_render:
  "list_all clean segs \<Longrightarrow> segs \<noteq> [] \<Longrightarrow> split_on CHR ''/'' (render segs) = [] # segs"
  using split_join [of segs] by (simp add: render_def)

lemma normalize_split_render:
  assumes "list_all clean segs"
  shows "normalize_acc [] (split_on CHR ''/'' (render segs)) = segs"
proof (cases "segs = []")
  case True
  then show ?thesis by (simp add: render_def)
next
  case False
  with assms show ?thesis by (simp add: split_render normalize_acc_clean)
qed

lemma path_resolve_render:
  "path_resolve wd ps = render (normalize_acc [] (split_on CHR ''/'' (resolve_raw (wd # ps))))"
  by (simp add: path_resolve_def render_def)

lemma path_resolve_clean:
  "list_all clean (normalize_acc [] (split_on CHR ''/'' raw))"
  by (rule normalize_acc_all_clean) (auto dest: split_on_segments)

lemma relative_tail:
  assumes "list_all clean segs"
  shows "\<not> prefix ''/'' (concat (map (\<lambda>s. s @ ''/'') segs))"
proof (cases segs)
  case Nil
  then show ?thesis by simp
next
  case (Cons s ss)
  with assms obtain c cs where "s = c # cs" "c \<noteq> CHR ''/''"
    by (cases s) (auto simp: clean_def)
  with Cons show ?thesis by simp
qed


lemma resolve_raw_clean:
  "list_all clean segs \<Longrightarrow> resolve_raw segs = concat (map (\<lambda>s. s @ ''/'') segs)"
proof (induction segs)
  case Nil
  then show ?case by simp
next
  case (Cons s segs)
  then have r: "resolve_raw segs = concat (map (\<lambda>s. s @ ''/'') segs)" by simp
  have "\<not> prefix ''/'' (concat (map (\<lambda>s. s @ ''/'') segs))"
    using Cons.prems by (intro relative_tail) simp
  with r Cons.prems show ?case by (simp add: clean_def Let_def)
qed

lemma split_trailing:
  "list_all clean segs \<Longrightarrow>
   split_on CHR ''/'' (xs @ CHR ''/'' # concat (map (\<lambda>s. s @ ''/'') segs)) = split_on CHR ''/'' xs @ segs @ [[]]"
proof (induction segs arbitrary: xs)
  case Nil
  then show ?case by (simp add: split_on_append)
next
  case (Cons s segs)
  have "xs @ CHR ''/'' # concat (map (\<lambda>s. s @ ''/'') (s # segs))
        = (xs @ CHR ''/'' # s) @ CHR ''/'' # concat (map (\<lambda>s. s @ ''/'') segs)" by simp
  then have "split_on CHR ''/'' (xs @ CHR ''/'' # concat (map (\<lambda>s. s @ ''/'') (s # segs)))
        = split_on CHR ''/'' (xs @ CHR ''/'' # s) @ segs @ [[]]"
    using Cons.IH [of "xs @ CHR ''/'' # s"] Cons.prems by simp
  also have "split_on CHR ''/'' (xs @ CHR ''/'' # s) = split_on CHR ''/'' xs @ [s]"
    using Cons.prems by (simp add: split_on_append split_on_no_sep clean_def)
  finally show ?case by simp
qed

text \<open>Resolving clean segments below an already resolved directory appends them.\<close>

lemma path_resolve_under:
  assumes dir: "dir = render dsegs" "list_all clean dsegs"
    and segs: "list_all clean segs"
  shows "path_resolve wd (dir # segs) = render (dsegs @ segs)"
proof (cases "segs = []")
  case True
  have "resolve_raw (wd # dir # []) = dir @ ''/''"
    using dir by (simp add: render_def Let_def)
  moreover have "split_on CHR ''/'' (dir @ ''/'') = split_on CHR ''/'' dir @ [[]]"
    by (simp add: split_on_append)
  ultimately show ?thesis
    using True dir
    by (simp add: path_resolve_render normalize_acc_append normalize_split_render del: resolve_raw.simps)
next
  case False
  let ?tail = "concat (map (\<lambda>s. s @ ''/'') segs)"
  have t: "resolve_raw segs = ?tail" using segs by (rule resolve_raw_clean)
  have np: "\<not> prefix ''/'' ?tail"
    using segs by (rule relative_tail)
  have raw: "resolve_raw (wd # dir # segs) = dir @ CHR ''/'' # ?tail"
    using t np dir by (simp add: Let_def render_def)
  have "split_on CHR ''/'' (dir @ CHR ''/'' # ?tail) = split_on CHR ''/'' dir @ segs @ [[]]"
    using segs by (rule split_trailing)
  then show ?thesis
    using raw dir segs
    by (simp add: path_resolve_render normalize_acc_append normalize_split_render normalize_acc_clean
        del: resolve_raw.simps)
qed


lemma split_trailing_only:
  "list_all clean segs \<Longrightarrow>
   split_on CHR ''/'' (concat (map (\<lambda>s. s @ ''/'') segs)) = segs @ [[]]"
proof (induction segs)
  case Nil
  then show ?case by simp
next
  case (Cons s segs)
  have "concat (map (\<lambda>s. s @ ''/'') (s # segs)) = s @ CHR ''/'' # concat (map (\<lambda>s. s @ ''/'') segs)"
    by simp
  with Cons show ?case by (simp add: split_on_append split_on_no_sep clean_def)
qed

lemma path_resolve_relative:
  assumes "list_all clean segs" "segs \<noteq> []"
  shows "path_resolve wd [join ''/'' segs] = render (normalize_acc [] (split_on CHR ''/'' wd) @ segs)"
proof -
  let ?tail = "concat (map (\<lambda>s. s @ ''/'') segs)"
  have j: "join ''/'' segs @ ''/'' = ?tail"
    using assms(2) by (induction segs rule: join.induct[where ?a0.0="''/''"]) auto
  have ne: "join ''/'' segs \<noteq> []"
    using assms by (cases segs; cases "tl segs") (auto simp: clean_def)
  have np: "\<not> prefix ''/'' ?tail" using assms(1) by (rule relative_tail)
  have r1: "resolve_raw [join ''/'' segs] = ?tail"
    using ne j by (simp add: Let_def)
  show ?thesis
  proof (cases "wd = []")
    case True
    then have "resolve_raw [wd, join ''/'' segs] = ?tail"
      using r1 np by (simp add: Let_def)
    then show ?thesis
      using True assms(1)
      by (simp add: path_resolve_render split_trailing_only normalize_acc_append normalize_acc_clean
          del: resolve_raw.simps)
  next
    case False
    then have "resolve_raw [wd, join ''/'' segs] = wd @ CHR ''/'' # ?tail"
      using r1 np by (simp add: Let_def)
    then show ?thesis
      using assms(1)
      by (simp add: path_resolve_render split_trailing normalize_acc_append normalize_acc_clean
          del: resolve_raw.simps)
  qed
qed

lemma base_segments_clean: "list_all clean (base_segments e)"
  unfolding base_segments_def by (rule path_resolve_clean)

lemma contentDir_render: "contentDir e = render (base_segments e @ [''src'', ''content''])"
  using path_resolve_relative [of "[''src'', ''content'']" "cwd e"]
  by (simp add: contentDir_def base_segments_def clean_def)


lemma galleryDir_render: "galleryDir e = render (base_segments e @ [''public'', ''gallery''])"
  using path_resolve_relative [of "[''public'', ''gallery'']" "cwd e"]
  by (simp add: galleryDir_def base_segments_def clean_def)

lemma memesDir_render: "memesDir e = render (base_segments e @ [''public'', ''memes''])"
  using path_resolve_relative [of "[''public'', ''memes'']" "cwd e"]
  by (simp add: memesDir_def base_segments_def clean_def)

lemma render_append:
  "xs \<noteq> [] \<Longrightarrow> ys \<noteq> [] \<Longrightarrow> render (xs @ ys) = render xs @ ''/'' @ join ''/'' ys"
  by (simp add: render_def join_append)

section \<open>Properties of the sanitizers\<close>

lemma hyphen_not_az09 [simp]: "\<not> is_az09 CHR ''-''"
  by (simp add: is_az09_def)

lemma lower_char_az09: "is_az09 c \<Longrightarrow> lower_char c = c"
  by (auto simp: is_az09_def lower_char_def Let_def)

lemma lower_char_filename: "is_filename_char c \<Longrightarrow> lower_char c = c"
  by (auto simp: is_filename_char_def lower_char_az09) (simp_all add: lower_char_def)

lemma toLowerCase_fixed: "list_all is_filename_char s \<Longrightarrow> toLowerCase s = s"
  unfolding toLowerCase_def by (induction s) (auto simp: lower_char_filename)

lemma slug_char_filename: "is_slug_char c \<Longrightarrow> is_filename_char c"
  by (auto simp: is_slug_char_def is_filename_char_def)

lemma collapse_set: "set (collapse_hyphens s) \<subseteq> set s"
  by (induction s rule: collapse_hyphens.induct) auto

lemma collapse_hd: "s \<noteq> [] \<Longrightarrow> collapse_hyphens s \<noteq> [] \<and> hd (collapse_hyphens s) = hd s"
  by (induction s rule: collapse_hyphens.induct) auto

lemma collapse_no_double: "no_double_hyphen (collapse_hyphens s)"
proof (induction s rule: collapse_hyphens.induct)
  case (3 c d s)
  from collapse_hd [of "d # s"] obtain r where r: "collapse_hyphens (d # s) = d # r"
    by (cases "collapse_hyphens (d # s)") auto
  with 3 show ?case by auto
qed simp_all

lemma collapse_fixed: "no_double_hyphen s \<Longrightarrow> collapse_hyphens s = s"
  by (induction s rule: collapse_hyphens.induct) auto

lemma no_double_tl: "no_double_hyphen (c # s) \<Longrightarrow> no_double_hyphen s"
  by (cases s) auto

lemma no_double_butlast: "no_double_hyphen s \<Longrightarrow> no_double_hyphen (butlast s)"
  by (induction s rule: no_double_hyphen.induct) (auto split: if_splits)

lemma no_double_last_butlast:
  "no_double_hyphen s \<Longrightarrow> butlast s \<noteq> [] \<Longrightarrow> last s = CHR ''-'' \<Longrightarrow> last (butlast s) \<noteq> CHR ''-''"
  by (induction s rule: no_double_hyphen.induct) (auto split: if_splits)

lemma trim_set: "set (trim_hyphens s) \<subseteq> set s"
  by (auto simp: trim_hyphens_def Let_def split: list.splits if_splits dest: in_set_butlastD)

lemma trim_no_double: "no_double_hyphen s \<Longrightarrow> no_double_hyphen (trim_hyphens s)"
  by (auto simp: trim_hyphens_def Let_def split: list.splits dest: no_double_tl no_double_butlast)

lemma trim_no_edge:
  assumes "no_double_hyphen s"
  shows "no_edge_hyphen (trim_hyphens s)"
proof -
  define t where "t = (case s of [] \<Rightarrow> [] | c # r \<Rightarrow> if c = CHR ''-'' then r else s)"
  have t_nd: "no_double_hyphen t"
    using assms by (auto simp: t_def split: list.splits dest: no_double_tl)
  have t_hd: "t = [] \<or> hd t \<noteq> CHR ''-''"
    using assms by (cases s; cases "tl s") (auto simp: t_def)
  have tr: "trim_hyphens s = (if t \<noteq> [] \<and> last t = CHR ''-'' then butlast t else t)"
    by (simp add: trim_hyphens_def t_def)
  show ?thesis
  proof (cases "t \<noteq> [] \<and> last t = CHR ''-''")
    case True
    then have eq: "trim_hyphens s = butlast t" by (simp add: tr)
    show ?thesis
    proof (cases "butlast t = []")
      case True
      with eq show ?thesis by (simp add: no_edge_hyphen_def)
    next
      case False
      then have "hd (butlast t) = hd t" by (cases t) auto
      moreover have "last (butlast t) \<noteq> CHR ''-''"
        using no_double_last_butlast [OF t_nd False] True by simp
      ultimately show ?thesis using t_hd True eq by (auto simp: no_edge_hyphen_def)
    qed
  next
    case False
    then show ?thesis using t_hd by (auto simp: tr no_edge_hyphen_def)
  qed
qed

lemma trim_fixed: "no_edge_hyphen s \<Longrightarrow> trim_hyphens s = s"
  by (cases s) (auto simp: trim_hyphens_def no_edge_hyphen_def Let_def)

lemma replace_runs_chars: "list_all is_slug_char (replace_runs s)"
  by (induction s rule: replace_runs.induct) (auto simp: is_slug_char_def)

lemma replace_runs_hd:
  "s \<noteq> [] \<Longrightarrow> is_az09 (hd s) \<Longrightarrow> replace_runs s \<noteq> [] \<and> hd (replace_runs s) = hd s"
  by (cases s) auto

lemma dropWhile_hd: "dropWhile P s \<noteq> [] \<Longrightarrow> \<not> P (hd (dropWhile P s))"
  using hd_dropWhile by blast

lemma replace_runs_no_double: "no_double_hyphen (replace_runs s)"
proof (induction s rule: replace_runs.induct)
  case 1
  show ?case by simp
next
  case (2 c s)
  show ?case
  proof (cases "is_az09 c")
    case True
    with 2 show ?thesis by (cases "replace_runs s") auto
  next
    case False
    let ?d = "dropWhile (\<lambda>d. \<not> is_az09 d) s"
    have nd: "no_double_hyphen (replace_runs ?d)" using 2 False by simp
    show ?thesis
    proof (cases "?d = []")
      case True
      then have "replace_runs (c # s) = [CHR ''-'']" using False by (simp del: dropWhile_eq_Nil_conv)
      then show ?thesis by simp
    next
      case nonempty: False
      then have "is_az09 (hd ?d)" using dropWhile_hd [of "\<lambda>d. \<not> is_az09 d" s] by simp
      then have ne: "hd ?d \<noteq> CHR ''-''" by auto
      from nonempty \<open>is_az09 (hd ?d)\<close>
      have "replace_runs ?d \<noteq> [] \<and> hd (replace_runs ?d) = hd ?d"
        by (rule replace_runs_hd)
      then obtain r where "replace_runs ?d = hd ?d # r"
        by (cases "replace_runs ?d") auto
      with nd ne False show ?thesis by simp
    qed
  qed
qed

lemma replace_runs_fixed:
  "list_all is_slug_char s \<Longrightarrow> no_double_hyphen s \<Longrightarrow> last s \<noteq> CHR ''-'' \<Longrightarrow> replace_runs s = s"
proof (induction s rule: replace_runs.induct)
  case 1
  show ?case by simp
next
  case (2 c s)
  show ?case
  proof (cases "is_az09 c")
    case True
    with 2 show ?thesis by (cases s) (auto dest: no_double_tl)
  next
    case False
    with 2(3) have c: "c = CHR ''-''" by (simp add: is_slug_char_def)
    with 2(5) obtain d r where s: "s = d # r" by (cases s) auto
    with c 2(4) have "d \<noteq> CHR ''-''" by simp
    with 2(3) s have d: "is_az09 d" by (simp add: is_slug_char_def)
    then have dw: "dropWhile (\<lambda>d. \<not> is_az09 d) s = s" by (simp add: s)
    have "replace_runs s = s" using 2(2) [OF False] 2(3,4,5) dw s by (auto dest: no_double_tl)
    with False c dw show ?thesis by simp
  qed
qed

lemma list_all_subset: "set t \<subseteq> set s \<Longrightarrow> list_all P s \<Longrightarrow> list_all P t"
  by (auto simp: list_all_iff)

lemma sanitize_chars: "list_all is_filename_char (sanitizeFilename s)"
proof -
  let ?m = "map (\<lambda>c. if is_filename_char c then c else CHR ''-'') (toLowerCase s)"
  have "list_all is_filename_char ?m"
    by (auto simp: list_all_iff is_filename_char_def)
  moreover have "set (sanitizeFilename s) \<subseteq> set ?m"
    unfolding sanitizeFilename_def using trim_set collapse_set by blast
  ultimately show ?thesis by (rule list_all_subset [rotated])
qed

lemma sanitize_no_double: "no_double_hyphen (sanitizeFilename s)"
  unfolding sanitizeFilename_def by (intro trim_no_double collapse_no_double)

lemma sanitize_no_edge: "no_edge_hyphen (sanitizeFilename s)"
  unfolding sanitizeFilename_def by (intro trim_no_edge collapse_no_double)

lemma slugify_chars: "list_all is_slug_char (slugify s)"
  unfolding slugify_def using trim_set replace_runs_chars list_all_subset by blast

lemma slugify_no_double: "no_double_hyphen (slugify s)"
  unfolding slugify_def by (intro trim_no_double replace_runs_no_double)

lemma slugify_no_edge: "no_edge_hyphen (slugify s)"
  unfolding slugify_def by (intro trim_no_edge replace_runs_no_double)

lemma sanitize_fixed:
  assumes "list_all is_filename_char r" "no_double_hyphen r" "no_edge_hyphen r"
  shows "sanitizeFilename r = r"
proof -
  have "map (\<lambda>c. if is_filename_char c then c else CHR ''-'') r = r"
    using assms(1) by (induction r) auto
  then show ?thesis
    using assms by (simp add: sanitizeFilename_def toLowerCase_fixed collapse_fixed trim_fixed)
qed

lemma slugify_fixed:
  assumes "list_all is_slug_char r" "no_double_hyphen r" "no_edge_hyphen r"
  shows "slugify r = r"
proof -
  have "list_all is_filename_char r"
    using assms(1) by (auto simp: list_all_iff slug_char_filename)
  then have low: "toLowerCase r = r" by (rule toLowerCase_fixed)
  have "last r \<noteq> CHR ''-'' \<or> r = []" using assms(3) by (auto simp: no_edge_hyphen_def)
  then have "replace_runs r = r"
    using assms(1,2) by (cases "r = []") (auto intro: replace_runs_fixed)
  with low assms(3) show ?thesis by (simp add: slugify_def trim_fixed)
qed


text \<open>
  C3: both sanitizers are idempotent: for every string \<open>s\<close>,
  \<open>sanitizeFilename (sanitizeFilename s) = sanitizeFilename s\<close> and
  \<open>slugify (slugify s) = slugify s\<close>.
\<close>

theorem sanitizers_idempotent:
  "sanitizeFilename (sanitizeFilename s) = sanitizeFilename s \<and> slugify (slugify s) = slugify s"
  by (simp add: sanitize_fixed sanitize_chars sanitize_no_double sanitize_no_edge
      slugify_fixed slugify_chars slugify_no_double slugify_no_edge)

theorem sanitizers_idempotent_witness:
  "sanitizeFilename (sanitizeFilename ''My  Photo (1).JPG'') = sanitizeFilename ''My  Photo (1).JPG''
   \<and> slugify (slugify ''Hello, World!'') = slugify ''Hello, World!''"
  using sanitizers_idempotent [of "''My  Photo (1).JPG''"] sanitizers_idempotent [of "''Hello, World!''"]
  by simp

text \<open>
  C4: every character of \<open>sanitizeFilename s\<close> is a lowercase letter, a digit, a dot or a
  hyphen, with no two hyphens in a row and no hyphen first or last; every character of
  \<open>slugify s\<close> is a lowercase letter, a digit or a hyphen, with no hyphen first or last.
\<close>

theorem sanitizers_strip:
  "list_all is_filename_char (sanitizeFilename s) \<and> no_double_hyphen (sanitizeFilename s)
   \<and> no_edge_hyphen (sanitizeFilename s)
   \<and> list_all is_slug_char (slugify s) \<and> no_edge_hyphen (slugify s)"
  by (simp add: sanitize_chars sanitize_no_double sanitize_no_edge slugify_chars slugify_no_edge)

theorem sanitizers_strip_witness:
  "sanitizeFilename ''--My  Photo (1).JPG--'' = ''my-photo-1-.jpg''
   \<and> slugify ''  Hello, World!  '' = ''hello-world''
   \<and> list_all is_filename_char (sanitizeFilename ''--My  Photo (1).JPG--'')
   \<and> no_double_hyphen (sanitizeFilename ''--My  Photo (1).JPG--'')
   \<and> no_edge_hyphen (sanitizeFilename ''--My  Photo (1).JPG--'')
   \<and> list_all is_slug_char (slugify ''  Hello, World!  '')
   \<and> no_edge_hyphen (slugify ''  Hello, World!  '')"
proof -
  have "sanitizeFilename ''--My  Photo (1).JPG--'' = ''my-photo-1-.jpg''"
    by code_simp
  moreover have "slugify ''  Hello, World!  '' = ''hello-world''"
    by code_simp
  ultimately show ?thesis
    using sanitizers_strip [of "''--My  Photo (1).JPG--''"]
      sanitizers_strip [of "''  Hello, World!  ''"]
    by blast
qed


section \<open>Properties of the file system\<close>

lemma lookup_update: "lookup (AList.update p v fs) q = (if q = p then Some v else lookup fs q)"
  by (simp add: lookup_def AList.update_conv')

lemma lookup_delete: "lookup (AList.delete p fs) q = (if q = p then None else lookup fs q)"
  by (simp add: lookup_def AList.delete_conv')

lemma writeFile_lookup:
  "writeFile fs p c = Inr fs' \<Longrightarrow> lookup fs' = (lookup fs)(p \<mapsto> File c)"
  by (auto simp: writeFile_def lookup_update fun_eq_iff split: if_splits)

lemma unlink_lookup:
  "unlink fs p = Inr fs' \<Longrightarrow> is_file fs p \<and> lookup fs' = (lookup fs)(p := None)"
  by (auto simp: unlink_def lookup_delete is_file_def fun_eq_iff
      split: if_splits option.splits node.splits)

section \<open>Properties of the dispatcher\<close>

lemma middleware_targets:
  "targets req url method \<Longrightarrow> prefix ''/__dev-editor/'' url
   \<Longrightarrow> middleware e fs req = dispatch e url fs req"
  by (auto simp: targets_def middleware_def split: option.splits)

lemma dispatch_create:
  "req_method req = ''POST'' \<Longrightarrow> dispatch e ''/__dev-editor/create'' fs req = create_handler e fs req"
  by (simp add: dispatch_def)

lemma dispatch_save:
  "req_method req = ''POST'' \<Longrightarrow> dispatch e ''/__dev-editor/save'' fs req = save_handler e fs req"
  by (simp add: dispatch_def)

lemma dispatch_delete:
  "req_method req = ''DELETE'' \<Longrightarrow> dispatch e ''/__dev-editor/delete'' fs req
     = delete_handler e (galleryDir e) ''/gallery/'' ''Can only delete gallery images'' fs req"
  by (simp add: dispatch_def)

lemma try_catch_Inl [simp]: "try_catch fs (Inl err) k = (error500 err, fs)"
  by (simp add: try_catch_def)

lemma try_catch_Inr [simp]: "try_catch fs (Inr x) k = k x"
  by (simp add: try_catch_def)

text \<open>What a handler may leave behind, carried through \<open>try_catch\<close>.\<close>

lemma try_catch_cases:
  assumes "\<And>err. r = Inl err \<Longrightarrow> P (error500 err, fs)"
    and "\<And>x. r = Inr x \<Longrightarrow> P (k x)"
  shows "P (try_catch fs r k)"
  using assms by (cases r) simp_all

section \<open>frontmatterToYaml\<close>






section \<open>Create never overwrites\<close>

lemma slug_char_not_slash: "is_slug_char c \<Longrightarrow> c \<noteq> CHR ''/''"
  by (auto simp: is_slug_char_def is_az09_def)

lemma slug_file_clean:
  assumes "slugify slug \<noteq> []"
  shows "clean (slugify slug @ ''.md'')"
proof -
  have "CHR ''/'' \<notin> set (slugify slug)"
    using slugify_chars [of slug] slug_char_not_slash by (auto simp: list_all_iff)
  moreover have "length (slugify slug @ ''.md'') \<ge> 4" using assms by (cases "slugify slug") auto
  ultimately show ?thesis by (auto simp: clean_def)
qed

lemma create_target:
  assumes "c \<in> set allowedCollections" "slugify slug \<noteq> []"
  shows "path_resolve (cwd e) [contentDir e, c, slugify slug @ ''.md'']
         = contentDir e @ ''/'' @ c @ ''/'' @ slugify slug @ ''.md''"
proof -
  have c: "clean c" using assms(1) by (auto simp: allowedCollections_def clean_def)
  have segs: "list_all clean [c, slugify slug @ ''.md'']"
    using c slug_file_clean [OF assms(2)] by simp
  have dsegs: "list_all clean (base_segments e @ [''src'', ''content''])"
    using base_segments_clean [of e] by (simp add: clean_def)
  have "path_resolve (cwd e) (contentDir e # [c, slugify slug @ ''.md''])
        = render ((base_segments e @ [''src'', ''content'']) @ [c, slugify slug @ ''.md''])"
    using contentDir_render dsegs segs by (rule path_resolve_under)
  also have "\<dots> = contentDir e @ ''/'' @ join ''/'' [c, slugify slug @ ''.md'']"
    unfolding contentDir_render by (rule render_append) simp_all
  finally show ?thesis by simp
qed

lemma create_handler_effect:
  "snd (create_handler e fs req) = fs
   \<or> (\<exists>p c. \<not> existsSync fs p \<and> writeFile fs p c = Inr (snd (create_handler e fs req)))"
  unfolding create_handler_def Let_def try_catch_def
  by (auto split: sum.splits)

lemma create_unchanged_where_exists:
  "existsSync fs p \<Longrightarrow> lookup (snd (create_handler e fs req)) p = lookup fs p"
  using create_handler_effect [of e fs req]
  by (auto dest!: writeFile_lookup simp: existsSync_def)

lemma create_changes:
  "lookup (snd (create_handler e fs req)) p \<noteq> lookup fs p
   \<Longrightarrow> \<not> existsSync fs p \<and> (\<exists>c. lookup (snd (create_handler e fs req)) p = Some (File c))"
  using create_handler_effect [of e fs req]
  by (auto dest!: writeFile_lookup simp: existsSync_def split: if_splits)

lemma create_conflict:
  assumes "req_json req = Inr (JObject kvs)"
    and "map_of kvs ''collection'' = Some (JString c)" "c \<in> set allowedCollections"
    and "map_of kvs ''slug'' = Some (JString slug)" "slugify slug \<noteq> []"
    and "existsSync fs (contentDir e @ ''/'' @ c @ ''/'' @ slugify slug @ ''.md'')"
  shows "create_handler e fs req = (error_response 409 ''File already exists'', fs)"
  using assms create_target [OF assms(3,5), of e]
  by (simp add: create_handler_def readJsonBody_def destructure_def array_includes_def
      string_arg_def template_def Let_def)

text \<open>
  C9: a create request never overwrites: when the target \<open><slug>.md\<close> exists in the
  collection directory the answer is 409 and the file system is unchanged; whatever
  existed before the request is unchanged after it, and a path whose entry changed did
  not exist before and holds a file afterwards.
\<close>

theorem create_never_overwrites:
  assumes "targets req ''/__dev-editor/create'' ''POST''"
  shows "(\<forall>kvs c slug.
            req_json req = Inr (JObject kvs)
            \<and> map_of kvs ''collection'' = Some (JString c) \<and> c \<in> set allowedCollections
            \<and> map_of kvs ''slug'' = Some (JString slug) \<and> slugify slug \<noteq> []
            \<and> existsSync fs (contentDir e @ ''/'' @ c @ ''/'' @ slugify slug @ ''.md'')
            \<longrightarrow> middleware e fs req = (error_response 409 ''File already exists'', fs))
         \<and> (\<forall>p. existsSync fs p \<longrightarrow> lookup (snd (middleware e fs req)) p = lookup fs p)
         \<and> (\<forall>p. lookup (snd (middleware e fs req)) p \<noteq> lookup fs p
               \<longrightarrow> \<not> existsSync fs p
                   \<and> (\<exists>content. lookup (snd (middleware e fs req)) p = Some (File content)))"
proof -
  have m: "req_method req = ''POST''"
    using assms by (auto simp: targets_def split: option.splits)
  have "middleware e fs req = create_handler e fs req"
    using middleware_targets [OF assms] m by (simp add: dispatch_create)
  then show ?thesis
    using create_conflict [of req _ _ _ fs e] create_unchanged_where_exists [of fs _ e req]
      create_changes [of e fs req]
    by auto
qed

theorem create_never_overwrites_witness:
  "targets (request_of ''POST'' ''/__dev-editor/create?draft=1''
              (JObject [(''collection'', JString ''blog''), (''slug'', JString ''Hello!''),
                        (''frontmatter'', JObject [(''title'', JString ''Hello'')])]))
     ''/__dev-editor/create'' ''POST''
   \<and> existsSync fs0 (contentDir env0 @ ''/'' @ ''blog'' @ ''/'' @ slugify ''Hello!'' @ ''.md'')
   \<and> middleware env0 fs0
        (request_of ''POST'' ''/__dev-editor/create?draft=1''
           (JObject [(''collection'', JString ''blog''), (''slug'', JString ''Hello!''),
                     (''frontmatter'', JObject [(''title'', JString ''Hello'')])]))
      = (error_response 409 ''File already exists'', fs0)"
proof -
  let ?kvs = "[(''collection'', JString ''blog''), (''slug'', JString ''Hello!''),
               (''frontmatter'', JObject [(''title'', JString ''Hello'')])]"
  let ?R = "request_of ''POST'' ''/__dev-editor/create?draft=1'' (JObject ?kvs)"
  have t: "targets ?R ''/__dev-editor/create'' ''POST''" by code_simp
  have x: "existsSync fs0 (contentDir env0 @ ''/'' @ ''blog'' @ ''/'' @ slugify ''Hello!'' @ ''.md'')"
    by code_simp
  have h: "req_json ?R = Inr (JObject ?kvs)
           \<and> map_of ?kvs ''collection'' = Some (JString ''blog'') \<and> ''blog'' \<in> set allowedCollections
           \<and> map_of ?kvs ''slug'' = Some (JString ''Hello!'') \<and> slugify ''Hello!'' \<noteq> []"
    by code_simp
  from create_never_overwrites [OF t, of fs0 env0] h x
  have "middleware env0 fs0 ?R = (error_response 409 ''File already exists'', fs0)"
    by blast
  with t x show ?thesis by blast
qed


section \<open>Status codes\<close>

lemma uniform_error500 [intro!]: "uniform (error500 err)"
  by (auto simp: uniform_def)

lemma uniform_error_response [intro!]:
  "st \<in> {400, 403, 404, 409} \<Longrightarrow> uniform (error_response st msg)"
  by (auto simp: uniform_def error_response_def json_response_def raw_response_def)

lemma uniform_success [intro!]: "uniform (success_response extra)"
  by (simp add: uniform_def success_response_def json_response_def raw_response_def)

lemma uniform_json_200 [intro!]: "uniform (json_response 200 v)"
  by (simp add: uniform_def json_response_def raw_response_def)

lemma uniform_raw_200 [intro!]: "uniform (raw_response 200 text)"
  by (simp add: uniform_def raw_response_def)

lemma uniform_try_catch [intro!]:
  "(\<And>x. r = Inr x \<Longrightarrow> uniform (fst (k x))) \<Longrightarrow> uniform (fst (try_catch fs r k))"
  by (cases r) auto

lemma uniform_save: "uniform (fst (save_handler e fs req))"
  unfolding save_handler_def Let_def by (auto split: if_splits prod.splits)

lemma uniform_create: "uniform (fst (create_handler e fs req))"
  unfolding create_handler_def Let_def by (auto split: if_splits)

lemma uniform_upload: "uniform (fst (upload_handler e dir pre fs req))"
  unfolding upload_handler_def Let_def by (auto split: if_splits)

lemma uniform_delete: "uniform (fst (delete_handler e dir pre msg fs req))"
  unfolding delete_handler_def Let_def by (auto split: if_splits)

lemma uniform_convert: "uniform (fst (convert_handler e fs req))"
  unfolding convert_handler_def by auto

lemma uniform_list: "uniform (fst (list_handler e dir pre fs req))"
  unfolding list_handler_def Let_def by auto

lemma uniform_unknown: "uniform (fst (unknown_endpoint fs))"
  unfolding unknown_endpoint_def by auto

lemma uniform_config:
  "(\<And>fs1. uniform (fst (rest fs1))) \<Longrightarrow> uniform (fst (config_block e p rest fs req))"
  unfolding config_block_def by (auto split: if_splits)

lemma uniform_after_memes: "uniform (fst (dispatch_after_memes e url req fs))"
  unfolding dispatch_after_memes_def
  by (simp add: uniform_upload uniform_delete uniform_list uniform_unknown)

lemma uniform_after_gallery: "uniform (fst (dispatch_after_gallery e url req fs))"
  unfolding dispatch_after_gallery_def
  by (simp add: uniform_config uniform_after_memes)

lemma uniform_dispatch: "uniform (fst (dispatch e url fs req))"
  unfolding dispatch_def
  by (simp add: uniform_save uniform_create uniform_upload uniform_delete uniform_convert
      uniform_list uniform_config uniform_after_gallery)

lemma error500_body:
  "error500 err = Response 500 [(''Content-Type'', ''application/json'')]
                    (JSON_stringify (JObject [(''error'', JString (String_err err))]))"
  by (simp add: error500_def error_response_def json_response_def raw_response_def)

text \<open>
  C6, as amended: every response of a dev-editor endpoint has status 200, 400, 403, 404,
  409 or 500, and a response with status 500 has the body \<open>{"error": String(err)}\<close> of a
  caught error. (The claim leaves out 409, which the create handler answers when the
  target exists.)
\<close>

theorem error_statuses:
  "fst (middleware e fs req) = Next
   \<or> (\<exists>st h b. fst (middleware e fs req) = Response st h b
         \<and> st \<in> {200, 400, 403, 404, 409, 500}
         \<and> (st = 500 \<longrightarrow>
              (\<exists>err. b = JSON_stringify (JObject [(''error'', JString (String_err err))]))))"
proof (cases "fst (middleware e fs req) = Next")
  case True
  then show ?thesis by simp
next
  case False
  then obtain url where "middleware e fs req = dispatch e url fs req"
    by (auto simp: middleware_def Let_def split: option.splits if_splits)
  then have "uniform (fst (middleware e fs req))" by (simp add: uniform_dispatch)
  then show ?thesis
    unfolding uniform_def by (auto simp: error500_body)
qed

theorem error_statuses_witness:
  "statusCode (fst (middleware env0 fs0 (request_of ''POST'' ''/__dev-editor/save'' JNull))) = 500
   \<and> (\<exists>err. res_body (fst (middleware env0 fs0 (request_of ''POST'' ''/__dev-editor/save'' JNull)))
              = JSON_stringify (JObject [(''error'', JString (String_err err))]))"
proof -
  let ?out = "fst (middleware env0 fs0 (request_of ''POST'' ''/__dev-editor/save'' JNull))"
  have s: "statusCode ?out = 500" by code_simp
  have n: "?out \<noteq> Next" by code_simp
  from error_statuses [of env0 fs0 "request_of ''POST'' ''/__dev-editor/save'' JNull"] n
  obtain st h b where o: "?out = Response st h b"
    and e: "st = 500 \<longrightarrow> (\<exists>err. b = JSON_stringify (JObject [(''error'', JString (String_err err))]))"
    by blast
  from o s have "st = 500" by simp
  with o e s show ?thesis by simp
qed

theorem error_statuses_counterexample:
  "fst (middleware env0 fs0
          (request_of ''POST'' ''/__dev-editor/create''
             (JObject [(''collection'', JString ''blog''), (''slug'', JString ''Hello''),
                       (''frontmatter'', JObject [])])))
     = error_response 409 ''File already exists''
   \<and> statusCode (error_response 409 ''File already exists'') = 409"
  by code_simp

section \<open>Unknown endpoints\<close>

lemma dispatch_unknown:
  assumes "(url, req_method req) \<notin> set defined_endpoints"
  shows "dispatch e url fs req =
           (if url = ''/__dev-editor/gallery'' \<or> url = ''/__dev-editor/memes''
            then try_catch fs (mkdir_recursive fs (dataDir e)) unknown_endpoint
            else unknown_endpoint fs)"
  using assms
  unfolding dispatch_def dispatch_after_gallery_def dispatch_after_memes_def config_block_def
    defined_endpoints_def
  by (auto simp: fun_eq_iff)

lemma unknown_body:
  "error_response 404 ''Unknown endpoint''
   = Response 404 [(''Content-Type'', ''application/json'')]
       (''{'' @ dq @ ''error'' @ dq @ '':'' @ dq @ ''Unknown endpoint'' @ dq @ ''}'')"
  by code_simp

text \<open>
  C7, as amended: a request whose URL path starts with \<open>/__dev-editor/\<close> and matches no
  defined endpoint-and-method combination is answered 404 with the body
  \<open>{"error":"Unknown endpoint"}\<close>, except that for the paths \<open>/__dev-editor/gallery\<close> and
  \<open>/__dev-editor/memes\<close> the data directory is created first, and when that creation
  fails the answer is 500 with that error.
\<close>

theorem unknown_endpoint_404:
  assumes "req_url req = Some raw" and "url = takeWhile (\<lambda>c. c \<noteq> CHR ''?'') raw"
    and "prefix ''/__dev-editor/'' url"
    and "(url, req_method req) \<notin> set defined_endpoints"
  shows "((url \<noteq> ''/__dev-editor/gallery'' \<and> url \<noteq> ''/__dev-editor/memes'')
          \<or> (\<exists>fs1. mkdir_recursive fs (dataDir e) = Inr fs1)
          \<longrightarrow> fst (middleware e fs req)
                = Response 404 [(''Content-Type'', ''application/json'')]
                    (''{'' @ dq @ ''error'' @ dq @ '':'' @ dq @ ''Unknown endpoint'' @ dq @ ''}''))
         \<and> (\<forall>err. (url = ''/__dev-editor/gallery'' \<or> url = ''/__dev-editor/memes'')
                  \<and> mkdir_recursive fs (dataDir e) = Inl err
                  \<longrightarrow> fst (middleware e fs req) = error500 err)"
proof -
  have "targets req url (req_method req)"
    using assms(1,2) by (simp add: targets_def)
  then have "middleware e fs req = dispatch e url fs req"
    using assms(3) by (rule middleware_targets)
  then show ?thesis
    using dispatch_unknown [OF assms(4), of e fs]
    by (auto simp: unknown_endpoint_def unknown_body)
qed

theorem unknown_endpoint_404_witness:
  "prefix ''/__dev-editor/'' ''/__dev-editor/gallery''
   \<and> (''/__dev-editor/gallery'', ''PUT'') \<notin> set defined_endpoints
   \<and> (\<exists>fs1. mkdir_recursive fs0 (dataDir env0) = Inr fs1)
   \<and> fst (middleware env0 fs0 (request_of ''PUT'' ''/__dev-editor/gallery?x=1'' JNull))
      = Response 404 [(''Content-Type'', ''application/json'')]
          (''{'' @ dq @ ''error'' @ dq @ '':'' @ dq @ ''Unknown endpoint'' @ dq @ ''}'')"
proof -
  let ?R = "request_of ''PUT'' ''/__dev-editor/gallery?x=1'' JNull"
  have u: "req_url ?R = Some ''/__dev-editor/gallery?x=1''" by code_simp
  have k: "''/__dev-editor/gallery'' = takeWhile (\<lambda>c. c \<noteq> CHR ''?'') ''/__dev-editor/gallery?x=1''"
    by code_simp
  have p: "prefix ''/__dev-editor/'' ''/__dev-editor/gallery''" by code_simp
  have d: "(''/__dev-editor/gallery'', req_method ?R) \<notin> set defined_endpoints" by code_simp
  have d': "(''/__dev-editor/gallery'', ''PUT'') \<notin> set defined_endpoints" by code_simp
  have "mkdir_recursive fs0 (dataDir env0) = Inr (fs0 @ [(''/site/src/data'', Dir)])" by code_simp
  then have m: "\<exists>fs1. mkdir_recursive fs0 (dataDir env0) = Inr fs1" by blast
  from unknown_endpoint_404 [OF u k p d, of fs0 env0] m
  have "fst (middleware env0 fs0 ?R)
      = Response 404 [(''Content-Type'', ''application/json'')]
          (''{'' @ dq @ ''error'' @ dq @ '':'' @ dq @ ''Unknown endpoint'' @ dq @ ''}'')"
    by blast
  with p d' m show ?thesis by blast
qed

theorem unknown_endpoint_counterexample:
  "prefix ''/__dev-editor/'' ''/__dev-editor/gallery''
   \<and> (''/__dev-editor/gallery'', ''PUT'') \<notin> set defined_endpoints
   \<and> middleware env0 [(''/site'', Dir), (''/site/src'', Dir), (''/site/src/data'', File ''notes'')]
        (request_of ''PUT'' ''/__dev-editor/gallery'' JNull)
     = (error500 (SystemError ''EEXIST'' ''/site/src/data''),
        [(''/site'', Dir), (''/site/src'', Dir), (''/site/src/data'', File ''notes'')])
   \<and> statusCode (error500 (SystemError ''EEXIST'' ''/site/src/data'')) = 500"
  by code_simp

section \<open>Save\<close>

text \<open>
  C1 asks that a save request writes only inside the content directory and answers 403
  otherwise. The handler compares strings: \<open>src/content/../content-drafts/x.md\<close> resolves
  to \<open>/site/src/content-drafts/x.md\<close>, which starts with \<open>/site/src/content\<close> and is not
  contained in that directory; the file is written and the answer is 200.
\<close>

theorem save_writes_outside_content:
  "middleware env0 fs0
     (request_of ''POST'' ''/__dev-editor/save''
        (JObject [(''filePath'', JString ''src/content/../content-drafts/x.md''),
                  (''content'', JString ''hi'')]))
   = (success_response [], fs0 @ [(''/site/src/content-drafts/x.md'', File ''hi'')])
   \<and> path_resolve (cwd env0) [''src/content/../content-drafts/x.md'']
       = ''/site/src/content-drafts/x.md''
   \<and> contentDir env0 = ''/site/src/content''
   \<and> \<not> contained_in (contentDir env0) ''/site/src/content-drafts/x.md''
   \<and> statusCode (success_response []) = 200"
  by code_simp


section \<open>Delete stays in the gallery\<close>

lemma basename_no_slash: "CHR ''/'' \<notin> set (basename p)"
  unfolding basename_def by (auto dest: set_takeWhileD)

lemma normalize_acc_trailing_empty: "normalize_acc acc (xs @ [[]]) = normalize_acc acc xs"
  by (simp add: normalize_acc_append)

lemma path_resolve_child:
  assumes dir: "dir = render dsegs" "list_all clean dsegs"
    and name: "CHR ''/'' \<notin> set name"
  shows "path_resolve wd [dir, name] = render (normalize_acc (rev dsegs) [name])"
proof (cases "name = []")
  case True
  have "resolve_raw [wd, dir, name] = dir @ ''/''"
    using dir(1) True by (simp add: Let_def render_def)
  moreover have "split_on CHR ''/'' (dir @ ''/'') = split_on CHR ''/'' dir @ [[]]"
    by (simp add: split_on_append)
  moreover have "normalize_acc [] (split_on CHR ''/'' dir @ [[]]) = dsegs"
    using dir by (simp add: normalize_acc_append normalize_split_render)
  ultimately show ?thesis
    using True by (simp add: path_resolve_render del: resolve_raw.simps)
next
  case False
  then have "\<not> prefix ''/'' (name @ ''/'')" using name by (cases name) auto
  then have "resolve_raw [wd, dir, name] = dir @ CHR ''/'' # name @ ''/''"
    using dir(1) False by (simp add: Let_def render_def)
  moreover have "split_on CHR ''/'' (dir @ CHR ''/'' # name @ ''/'')
                 = split_on CHR ''/'' dir @ [name] @ [[]]"
    using name by (simp add: split_on_append split_on_no_sep)
  moreover have "normalize_acc [] (split_on CHR ''/'' dir @ [name] @ [[]])
                 = normalize_acc (rev dsegs) [name]"
    using dir
    by (simp only: normalize_acc_append normalize_split_render append_assoc [symmetric])
       (simp add: normalize_acc_append)
  ultimately show ?thesis
    by (simp add: path_resolve_render del: resolve_raw.simps)
qed

lemma render_length_snoc: "xs \<noteq> [] \<Longrightarrow> length (render xs) < length (render (xs @ [b]))"
  by (simp add: render_append)

lemma delete_target:
  assumes dir: "dir = render (B @ [a, b])" "list_all clean (B @ [a, b])"
    and name: "CHR ''/'' \<notin> set name"
  shows "(clean name \<and> path_resolve wd [dir, name] = dir @ ''/'' @ name)
         \<or> ((name = [] \<or> name = ''.'') \<and> path_resolve wd [dir, name] = dir)
         \<or> (name = ''..'' \<and> \<not> prefix dir (path_resolve wd [dir, name]))"
proof -
  have p: "path_resolve wd [dir, name] = render (normalize_acc (rev (B @ [a, b])) [name])"
    using dir name by (rule path_resolve_child)
  consider "name = []" | "name = ''.''" | "name = ''..''" | "clean name"
    using name by (auto simp: clean_def)
  then show ?thesis
  proof cases
    case 1
    then show ?thesis using p dir(1) by simp
  next
    case 2
    then show ?thesis using p dir(1) by simp
  next
    case 3
    then have "path_resolve wd [dir, name] = render (B @ [a])" using p by simp
    moreover have "length (render (B @ [a])) < length dir"
      using render_length_snoc [of "B @ [a]" b] dir(1) by simp
    ultimately show ?thesis using 3 by (auto dest: prefix_length_le)
  next
    case 4
    then have "normalize_acc (rev (B @ [a, b])) [name] = (B @ [a, b]) @ [name]"
      by (simp add: clean_def)
    then have "path_resolve wd [dir, name] = render ((B @ [a, b]) @ [name])"
      using p by simp
    also have "\<dots> = render (B @ [a, b]) @ ''/'' @ join ''/'' [name]"
      by (rule render_append) simp_all
    finally show ?thesis using 4 dir(1) by simp
  qed
qed

lemma delete_handler_effect:
  assumes dir: "dir = render (B @ [a, b])" "list_all clean (B @ [a, b])"
  shows "snd (delete_handler e dir pre msg fs req) = fs
         \<or> (\<exists>kvs s. req_json req = Inr (JObject kvs) \<and> map_of kvs ''path'' = Some (JString s)
               \<and> prefix pre s
               \<and> ((clean (basename s)
                    \<and> unlink fs (dir @ ''/'' @ basename s) = Inr (snd (delete_handler e dir pre msg fs req)))
                   \<or> unlink fs dir = Inr (snd (delete_handler e dir pre msg fs req))))"
proof (cases "req_json req")
  case (Inl err)
  then show ?thesis by (simp add: delete_handler_def readJsonBody_def)
next
  case (Inr v)
  show ?thesis
  proof (cases "\<exists>kvs s. v = JObject kvs \<and> map_of kvs ''path'' = Some (JString s)")
    case False
    then have "snd (delete_handler e dir pre msg fs req) = fs"
      using Inr
      by (cases v)
        (auto simp: delete_handler_def readJsonBody_def destructure_def string_arg_def
          split: option.splits json.splits)
    then show ?thesis by simp
  next
    case True
    then obtain kvs s where v: "v = JObject kvs" and s: "map_of kvs ''path'' = Some (JString s)"
      by blast
    from delete_target [OF dir basename_no_slash, of s "cwd e"]
    show ?thesis
      using Inr v s
      by (auto simp: delete_handler_def readJsonBody_def destructure_def string_arg_def Let_def
          try_catch_def split: sum.splits)
  qed
qed

lemma clean_directly_inside: "clean n \<Longrightarrow> directly_inside dir (dir @ CHR ''/'' # n)"
  by (simp add: directly_inside_def clean_def)

lemma delete_refuses_other_prefix:
  assumes "req_json req = Inr (JObject kvs)" "map_of kvs ''path'' = Some (JString s)"
    and "\<not> prefix pre s"
  shows "delete_handler e dir pre msg fs req = (error_response 403 msg, fs)"
  using assms
  by (simp add: delete_handler_def readJsonBody_def destructure_def string_arg_def)

lemma galleryDir_clean: "list_all clean (base_segments e @ [''public'', ''gallery''])"
  using base_segments_clean [of e] by (simp add: clean_def)

text \<open>
  What the handler does keep: a path that does not begin with \<open>/gallery/\<close> is refused with
  403; and as long as \<open>public/gallery\<close> is not a regular file, the only entry that can
  change is removed, lies directly inside the gallery directory and is named by the
  basename of the submitted path.
\<close>

lemma delete_effect:
  assumes "targets req ''/__dev-editor/delete'' ''DELETE''"
    and "\<not> is_file fs (galleryDir e)"
  shows "(\<forall>kvs s. req_json req = Inr (JObject kvs) \<and> map_of kvs ''path'' = Some (JString s)
            \<and> \<not> prefix ''/gallery/'' s
            \<longrightarrow> middleware e fs req = (error_response 403 ''Can only delete gallery images'', fs))
         \<and> (\<forall>p. lookup (snd (middleware e fs req)) p \<noteq> lookup fs p
               \<longrightarrow> directly_inside (galleryDir e) p
                   \<and> lookup (snd (middleware e fs req)) p = None
                   \<and> (\<exists>kvs s. req_json req = Inr (JObject kvs)
                          \<and> map_of kvs ''path'' = Some (JString s)
                          \<and> p = galleryDir e @ ''/'' @ basename s))"
proof -
  let ?h = "delete_handler e (galleryDir e) ''/gallery/'' ''Can only delete gallery images'' fs req"
  have m: "req_method req = ''DELETE''"
    using assms(1) by (auto simp: targets_def split: option.splits)
  have mw: "middleware e fs req = ?h"
    using middleware_targets [OF assms(1)] m by (simp add: dispatch_delete)
  have first: "\<forall>kvs s. req_json req = Inr (JObject kvs) \<and> map_of kvs ''path'' = Some (JString s)
            \<and> \<not> prefix ''/gallery/'' s
            \<longrightarrow> ?h = (error_response 403 ''Can only delete gallery images'', fs)"
    using delete_refuses_other_prefix by blast
  have second: "directly_inside (galleryDir e) p \<and> lookup (snd ?h) p = None
         \<and> (\<exists>kvs s. req_json req = Inr (JObject kvs) \<and> map_of kvs ''path'' = Some (JString s)
                \<and> p = galleryDir e @ ''/'' @ basename s)"
    if changed: "lookup (snd ?h) p \<noteq> lookup fs p" for p
  proof -
    from delete_handler_effect [OF galleryDir_render [of e] galleryDir_clean [of e],
        where pre = "''/gallery/''" and msg = "''Can only delete gallery images''"
          and fs = fs and req = req and e = e]
    obtain kvs s where body: "req_json req = Inr (JObject kvs)" "map_of kvs ''path'' = Some (JString s)"
      and un: "(clean (basename s) \<and> unlink fs (galleryDir e @ ''/'' @ basename s) = Inr (snd ?h))
               \<or> unlink fs (galleryDir e) = Inr (snd ?h)"
      using changed by auto
    from un assms(2) have c: "clean (basename s)"
      and u: "unlink fs (galleryDir e @ ''/'' @ basename s) = Inr (snd ?h)"
      by (auto dest: unlink_lookup)
    from unlink_lookup [OF u] changed have "p = galleryDir e @ ''/'' @ basename s"
      by (auto split: if_splits)
    with c body unlink_lookup [OF u] show ?thesis
      by (auto simp: clean_directly_inside)
  qed
  show ?thesis unfolding mw using first second by blast
qed

text \<open>
  C2 asks that a delete request removes a file only if it lies directly inside the
  gallery directory. The handler's second check, as the first of the save handler, is a
  test on strings, which the gallery path itself passes: the path \<open>/gallery/.\<close> has the
  basename \<open>.\<close> and resolves to \<open>/site/public/gallery\<close>; where that is a regular file it
  is removed, and the answer is 200.
\<close>

theorem delete_removes_gallery_path:
  "basename ''/gallery/.'' = ''.''
   \<and> path_resolve (cwd env0) [galleryDir env0, ''.''] = ''/site/public/gallery''
   \<and> galleryDir env0 = ''/site/public/gallery''
   \<and> middleware env0
        [(''/site'', Dir), (''/site/public'', Dir), (''/site/public/gallery'', File ''notes'')]
        (request_of ''DELETE'' ''/__dev-editor/delete'' (JObject [(''path'', JString ''/gallery/.'')]))
      = (success_response [], [(''/site'', Dir), (''/site/public'', Dir)])
   \<and> statusCode (success_response []) = 200
   \<and> \<not> directly_inside (galleryDir env0) ''/site/public/gallery''"
  by code_simp

section \<open>Empty arrays in the front matter\<close>





section \<open>Decimal notation\<close>

lemma of_char_digit: "(of_char (digit_char n) :: int) = 48 + n mod 10"
proof -
  have "0 \<le> n mod 10" "n mod 10 < 10" by simp_all
  then have "(48 + n mod 10) mod 256 = 48 + n mod 10" by (intro mod_pos_pos_trivial) simp_all
  then show ?thesis by (simp add: digit_char_def)
qed

lemma of_char_digit_nat: "(of_char (digit_char n) :: nat) = nat (48 + n mod 10)"
proof -
  have "int (of_char (digit_char n) :: nat) = (of_char (digit_char n) :: int)"
    by (rule of_nat_of_char)
  then show ?thesis by (simp add: of_char_digit)
qed

lemma is_digit_digit_char: "is_digit (digit_char n)"
proof -
  have "0 \<le> n mod 10" "n mod 10 < 10" by simp_all
  then show ?thesis unfolding is_digit_def Let_def of_char_digit_nat by arith
qed

lemma hyphen_not_digit [simp]: "\<not> is_digit CHR ''-''"
  by (simp add: is_digit_def)

lemma show_digits_digits: "list_all is_digit (show_digits n)"
proof (induction n rule: show_digits.induct)
  case (1 n)
  show ?case
    using 1 is_digit_digit_char [of n]
    by (subst show_digits.simps) simp
qed


text \<open>Reading the digits back gives the number.\<close>

lemma read_digits_snoc: "read_digits (s @ [digit_char n]) = 10 * read_digits s + n mod 10"
  by (simp add: read_digits_def of_char_digit)

lemma read_digits_show: "0 \<le> n \<Longrightarrow> read_digits (show_digits n) = n"
proof (induction n rule: show_digits.induct)
  case (1 n)
  show ?case
  proof (cases "n < 10")
    case True
    then have "show_digits n = [digit_char n]" by (subst show_digits.simps) simp
    with True 1(2) show ?thesis by (simp add: read_digits_def of_char_digit)
  next
    case False
    then have "show_digits n = show_digits (n div 10) @ [digit_char n]"
      by (subst show_digits.simps) simp
    moreover have "read_digits (show_digits (n div 10)) = n div 10"
      using False 1(2) by (intro 1(1)) simp_all
    ultimately show ?thesis by (simp add: read_digits_snoc)
  qed
qed

lemma show_digits_inj: "0 \<le> m \<Longrightarrow> 0 \<le> n \<Longrightarrow> show_digits m = show_digits n \<Longrightarrow> m = n"
  using read_digits_show [of m] read_digits_show [of n] by metis

lemma show_digits_no_hyphen: "show_digits n \<noteq> CHR ''-'' # r"
  using show_digits_digits [of n] by auto

lemma show_int_inj: "show_int i = show_int j \<Longrightarrow> i = j"
proof -
  assume e: "show_int i = show_int j"
  consider "i < 0" "j < 0" | "0 \<le> i" "0 \<le> j" | "i < 0" "0 \<le> j" | "0 \<le> i" "j < 0" by linarith
  then show ?thesis
  proof cases
    case 1
    with e have "show_digits (- i) = show_digits (- j)" by (simp add: show_int_def)
    with 1 have "- i = - j" by (intro show_digits_inj) simp_all
    then show ?thesis by simp
  next
    case 2
    with e have "show_digits i = show_digits j" by (simp add: show_int_def)
    with 2 show ?thesis by (intro show_digits_inj)
  next
    case 3
    with e have "show_digits j = CHR ''-'' # show_digits (- i)" by (simp add: show_int_def)
    then show ?thesis using show_digits_no_hyphen [of j] by simp
  next
    case 4
    with e have "show_digits i = CHR ''-'' # show_digits (- j)" by (simp add: show_int_def)
    then show ?thesis using show_digits_no_hyphen [of i] by simp
  qed
qed


section \<open>The front matter of a created file\<close>


lemma statusCode_error_response [simp]: "statusCode (error_response st msg) = st"
  by (simp add: error_response_def json_response_def raw_response_def)

lemma statusCode_error500 [simp]: "statusCode (error500 err) = 500"
  by (simp add: error500_def)

lemma create_success_file:
  assumes "create_handler e fs req = (out, fs')" "statusCode out = 200"
  shows "\<exists>fields c slug yaml.
           req_json req = Inr (JObject fields)
           \<and> map_of fields ''collection'' = Some (JString c) \<and> c \<in> set allowedCollections
           \<and> map_of fields ''slug'' = Some (JString slug) \<and> slugify slug \<noteq> []
           \<and> frontmatterToYaml (map_of fields ''frontmatter'') = Inr yaml
           \<and> lookup fs' (contentDir e @ ''/'' @ c @ ''/'' @ slugify slug @ ''.md'')
               = Some (File (markdownContent yaml (map_of fields ''body'')))"
proof -
  from assms obtain v where v: "req_json req = Inr v"
    by (cases "req_json req") (auto simp: create_handler_def readJsonBody_def)
  from assms v obtain fields where f: "v = JObject fields"
    by (cases v) (auto simp: create_handler_def readJsonBody_def destructure_def array_includes_def)
  from assms v f obtain c where c: "map_of fields ''collection'' = Some (JString c)"
      "c \<in> set allowedCollections"
    by (auto simp: create_handler_def readJsonBody_def destructure_def array_includes_def
        split: if_splits option.splits json.splits)
  from assms v f c obtain slug where s: "map_of fields ''slug'' = Some (JString slug)"
    by (auto simp: create_handler_def readJsonBody_def destructure_def array_includes_def
        string_arg_def split: option.splits json.splits)
  from assms v f c s have ne: "slugify slug \<noteq> []"
    by (auto simp: create_handler_def readJsonBody_def destructure_def array_includes_def
        string_arg_def Let_def split: if_splits)
  note t = create_target [OF c(2) ne, of e]
  from assms v f c s ne t obtain yaml where y: "frontmatterToYaml (map_of fields ''frontmatter'') = Inr yaml"
    by (cases "frontmatterToYaml (map_of fields ''frontmatter'')")
      (auto simp: create_handler_def readJsonBody_def destructure_def array_includes_def
        string_arg_def Let_def template_def split: if_splits)
  from assms v f c s ne t y
  have "writeFile fs (contentDir e @ ''/'' @ c @ ''/'' @ slugify slug @ ''.md'')
          (markdownContent yaml (map_of fields ''body'')) = Inr fs'"
    by (cases "writeFile fs (contentDir e @ ''/'' @ c @ ''/'' @ slugify slug @ ''.md'')
          (markdownContent yaml (map_of fields ''body''))")
      (auto simp: create_handler_def readJsonBody_def destructure_def array_includes_def
        string_arg_def Let_def template_def split: if_splits)
  from writeFile_lookup [OF this] v f c s ne y show ?thesis by simp
qed


text \<open>
  C5 asks that parsing the front-matter block of a created file yields exactly the
  submitted object. The serializer quotes a string only when it holds a colon, a hash or
  a quote (\<open>a: b\<close> is written \<open>"a: b"\<close>), so the string \<open>1984\<close> is written bare: the
  request with the title \<open>"1984"\<close> and the request with the title \<open>1984\<close>, a number,
  both succeed and write the same file, \<open>title: 1984\<close> between the delimiters. No reading
  of that block gives back both objects, and YAML reads it as the number.
\<close>

theorem created_front_matter_unquoted:
  "statusCode (fst (middleware env0 fs0
      (request_of ''POST'' ''/__dev-editor/create''
         (JObject [(''collection'', JString ''books''), (''slug'', JString ''Orwell''),
                   (''frontmatter'', JObject [(''title'', JString ''1984'')])])))) = 200
   \<and> statusCode (fst (middleware env0 fs0
      (request_of ''POST'' ''/__dev-editor/create''
         (JObject [(''collection'', JString ''books''), (''slug'', JString ''Orwell''),
                   (''frontmatter'', JObject [(''title'', JNumber 1984)])])))) = 200
   \<and> lookup (snd (middleware env0 fs0
      (request_of ''POST'' ''/__dev-editor/create''
         (JObject [(''collection'', JString ''books''), (''slug'', JString ''Orwell''),
                   (''frontmatter'', JObject [(''title'', JString ''1984'')])]))))
        ''/site/src/content/books/orwell.md''
      = Some (File (''---'' @ [CHR 0x0A] @ ''title: 1984'' @ [CHR 0x0A] @ ''---'' @ [CHR 0x0A, CHR 0x0A]))
   \<and> lookup (snd (middleware env0 fs0
      (request_of ''POST'' ''/__dev-editor/create''
         (JObject [(''collection'', JString ''books''), (''slug'', JString ''Orwell''),
                   (''frontmatter'', JObject [(''title'', JNumber 1984)])]))))
        ''/site/src/content/books/orwell.md''
      = Some (File (''---'' @ [CHR 0x0A] @ ''title: 1984'' @ [CHR 0x0A] @ ''---'' @ [CHR 0x0A, CHR 0x0A]))
   \<and> JObject [(''title'', JString ''1984'')] \<noteq> JObject [(''title'', JNumber 1984)]
   \<and> frontmatterToYaml (Some (JObject [(''title'', JString ''a: b'')]))
       = Inr (''title: '' @ dq @ ''a: b'' @ dq)"
  by code_simp


section \<open>Parsing back what \<open>JSON.stringify\<close> writes\<close>

subsection \<open>White space\<close>


lemma skip_ws_newline [simp]: "skip_ws (CHR 0x0A # t) = skip_ws t"
  by (simp add: skip_ws_def is_ws_def)

lemma skip_ws_space [simp]: "skip_ws (CHR '' '' # t) = skip_ws t"
  by (simp add: skip_ws_def is_ws_def)



subsection \<open>Strings\<close>


lemma hex_value_zero [simp]: "hex_value CHR ''0'' = Some 0"
  by (simp add: hex_value_def)





subsection \<open>Numbers\<close>








subsection \<open>Values\<close>



lemma elements_text_Cons:
  "elements_text ind (x # xs)
   = replicate ind CHR '' '' @ JSON_stringify_indent ind x
     @ (if xs = [] then [] else CHR '','' # CHR 0x0A # elements_text ind xs)"
  by (cases xs) (simp_all add: elements_text_def)

lemma members_text_Cons:
  "members_text ind ((k, v) # kvs)
   = replicate ind CHR '' '' @ json_quote k @ '': '' @ JSON_stringify_indent ind v
     @ (if kvs = [] then [] else CHR '','' # CHR 0x0A # members_text ind kvs)"
  by (cases kvs) (simp_all add: members_text_def)



lemma ws_indent: "list_all is_ws (CHR 0x0A # replicate k CHR '' '')"
  by (simp add: is_ws_def list_all_iff)

lemma delimited_simps [simp]:
  "delimited []" "delimited (CHR '','' # t)" "delimited (CHR 0x0A # t)"
  by (simp_all add: delimited_def)


lemma elements_text_nonempty: "xs \<noteq> [] \<Longrightarrow> elements_text (Suc i) xs \<noteq> []"
  by (cases xs) (simp_all add: elements_text_Cons)

lemma members_text_nonempty: "kvs \<noteq> [] \<Longrightarrow> members_text (Suc i) kvs \<noteq> []"
  by (cases kvs) (auto simp: members_text_Cons)






lemma fuel_Suc: "length s \<le> n \<Longrightarrow> s \<noteq> [] \<Longrightarrow> \<exists>m. n = Suc m"
  by (cases n) auto




section \<open>The configuration files round-trip\<close>

















end
